theory Spec2Isabelle
  imports Complex_Main "HOL-Library.AList"
begin

section \<open>Python values: exceptions and dictionaries\<close>

text \<open>
  The exceptions the modelled code can raise. \<open>ValueError_empty_sequence\<close> is the
  \<open>ValueError\<close> of \<open>min([])\<close>; \<open>ValueError_store_not_found\<close> is the
  \<open>ValueError\<close> that \<open>StoreTierSystem.get_store_tier_info\<close> raises with a message naming
  the store.
\<close>

datatype 'store py_error =
    KeyError
  | IndexError
  | ValueError_empty_sequence
  | ValueError_store_not_found 'store

text \<open>
  A Python \<open>dict\<close> is an association list in insertion order with distinct keys:
  \<open>d.get(k, dflt)\<close> is \<open>dict_get\<close>, \<open>d[k] = v\<close> is \<open>dict_set\<close>.
\<close>

type_synonym ('k, 'v) dict = "('k \<times> 'v) list"

definition dict_get :: "('k, 'v) dict \<Rightarrow> 'k \<Rightarrow> 'v \<Rightarrow> 'v" where
  "dict_get d k dflt = (case map_of d k of None \<Rightarrow> dflt | Some v \<Rightarrow> v)"

definition dict_set :: "'k \<Rightarrow> 'v \<Rightarrow> ('k, 'v) dict \<Rightarrow> ('k, 'v) dict" where
  "dict_set k v d = AList.update k v d"

definition dict_values :: "('k, 'v) dict \<Rightarrow> 'v list" where
  "dict_values d = map snd d"

section \<open>Input data\<close>

text \<open>
  The \<open>data\<close> dictionary built by \<open>DataLoader.get_basic_data_structures\<close>: supplies
  \<open>A\<close>, the store list, the SKU list, the store volumes \<open>QSUM\<close>, and the colour and
  size lists \<open>K_s[s]\<close>, \<open>L_s[s]\<close> of the one target style \<open>s\<close>.
\<close>

record ('sku, 'store, 'color, 'size) data =
  A :: "('sku, int) dict"
  SKUs :: "'sku list"
  stores :: "'store list"
  QSUM :: "('store, real) dict"
  K_s :: "'color list"
  L_s :: "'size list"

text \<open>A row of the data frame \<open>df_sku_filtered\<close>, with the columns the core reads.\<close>

record ('sku, 'color, 'size) sku_row =
  SKU :: 'sku
  COLOR_CD :: 'color
  SIZE_CD :: 'size

text \<open>
  \<open>df.loc[df['SKU'] == sku].iloc[0]\<close>: the first row of that SKU; \<open>IndexError\<close> when
  there is none.
\<close>

definition df_row :: "('sku, 'color, 'size) sku_row list \<Rightarrow> 'sku \<Rightarrow>
    ('sku, 'color, 'size) sku_row option" where
  "df_row df sku = find (\<lambda>r. SKU r = sku) df"

section \<open>The Step 1 MILP of \<open>ThreeStepOptimizer\<close>\<close>

text \<open>
  The PuLP model is kept as data: the variables with their categories, the objective
  and the list of linear constraints, in the order the code adds them.
\<close>

datatype ('sku, 'store, 'color, 'size) lp_var =
    B_var 'sku 'store
  | Color_coverage 'store
  | Size_coverage 'store
  | Color_bin 'color 'store
  | Size_bin 'size 'store

datatype lp_cat = LpBinary | LpInteger int int

type_synonym 'v lp_expr = "(real \<times> 'v) list"

text \<open>\<open>LpLe l r c\<close> is the constraint \<open>l \<le> r + c\<close>; likewise \<open>LpGe\<close> and \<open>LpEq\<close>.\<close>

datatype 'v lp_constraint =
    LpLe "'v lp_expr" "'v lp_expr" real
  | LpGe "'v lp_expr" "'v lp_expr" real
  | LpEq "'v lp_expr" "'v lp_expr" real

record 'v lp_problem =
  variables :: "('v \<times> lp_cat) list"
  objective :: "'v lp_expr"
  constraints :: "'v lp_constraint list"

definition lp_value :: "('v \<Rightarrow> real) \<Rightarrow> 'v lp_expr \<Rightarrow> real" where
  "lp_value \<sigma> e = sum_list (map (\<lambda>(a, v). a * \<sigma> v) e)"

fun lp_holds :: "('v \<Rightarrow> real) \<Rightarrow> 'v lp_constraint \<Rightarrow> bool" where
  "lp_holds \<sigma> (LpLe l r c) = (lp_value \<sigma> l \<le> lp_value \<sigma> r + c)"
| "lp_holds \<sigma> (LpGe l r c) = (lp_value \<sigma> l \<ge> lp_value \<sigma> r + c)"
| "lp_holds \<sigma> (LpEq l r c) = (lp_value \<sigma> l = lp_value \<sigma> r + c)"

fun lp_in_cat :: "lp_cat \<Rightarrow> real \<Rightarrow> bool" where
  "lp_in_cat LpBinary x = (x = 0 \<or> x = 1)"
| "lp_in_cat (LpInteger lo hi) x = (of_int \<lfloor>x\<rfloor> = x \<and> of_int lo \<le> x \<and> x \<le> of_int hi)"

text \<open>An assignment is feasible when it respects every category and every constraint.\<close>

definition lp_feasible :: "'v lp_problem \<Rightarrow> ('v \<Rightarrow> real) \<Rightarrow> bool" where
  "lp_feasible P \<sigma> =
     (list_all (\<lambda>(v, c). lp_in_cat c (\<sigma> v)) (variables P) \<and>
      list_all (lp_holds \<sigma>) (constraints P))"

text \<open>\<open>_create_binary_variables\<close>: \<open>b[i][j]\<close> is a variable exactly for target stores.\<close>

definition create_binary_variables ::
    "'sku list \<Rightarrow> 'store list \<Rightarrow> 'store list \<Rightarrow>
     (('sku, 'store, 'color, 'size) lp_var \<times> lp_cat) list" where
  "create_binary_variables skus sts target_stores =
     concat (map (\<lambda>i. map (\<lambda>j. (B_var i j, LpBinary))
                        (filter (\<lambda>j. j \<in> set target_stores) sts)) skus)"

text \<open>\<open>_create_coverage_variables\<close>.\<close>

definition create_coverage_variables ::
    "'store list \<Rightarrow> 'store list \<Rightarrow> 'color list \<Rightarrow> 'size list \<Rightarrow>
     (('sku, 'store, 'color, 'size) lp_var \<times> lp_cat) list" where
  "create_coverage_variables sts target_stores ks ls =
     concat (map (\<lambda>j. [(Color_coverage j, LpInteger 0 (int (length ks))),
                       (Size_coverage j, LpInteger 0 (int (length ls)))])
                 (filter (\<lambda>j. j \<in> set target_stores) sts))"

text \<open>\<open>_set_coverage_objective\<close>: the normalised coverage sum.\<close>

definition set_coverage_objective ::
    "'store list \<Rightarrow> 'store list \<Rightarrow> 'color list \<Rightarrow> 'size list \<Rightarrow>
     ('sku, 'store, 'color, 'size) lp_var lp_expr" where
  "set_coverage_objective sts target_stores ks ls =
     (let total_colors = length ks;
          total_sizes = length ls;
          color_weight = (if total_colors > 0 then 1 / real total_colors else 1);
          size_weight = (if total_sizes > 0 then 1 / real total_sizes else 1)
      in concat (map (\<lambda>j. [(color_weight, Color_coverage j), (size_weight, Size_coverage j)])
                     (filter (\<lambda>j. j \<in> set target_stores) sts)))"

text \<open>
  The colour and size groups of \<open>_add_coverage_constraints_step1\<close>: a dictionary from
  the attribute to the SKUs that carry it, in order of appearance. A SKU without a row
  in the data frame is skipped (the bare \<open>except: continue\<close>).
\<close>

fun group_append :: "'k \<Rightarrow> 'v \<Rightarrow> ('k, 'v list) dict \<Rightarrow> ('k, 'v list) dict" where
  "group_append k v [] = [(k, [v])]"
| "group_append k v ((k', vs) # g) =
     (if k' = k then (k', vs @ [v]) # g else (k', vs) # group_append k v g)"

fun sku_groups :: "('sku, 'color, 'size) sku_row list \<Rightarrow> 'sku list \<Rightarrow>
    ('color, 'sku list) dict \<times> ('size, 'sku list) dict \<Rightarrow>
    ('color, 'sku list) dict \<times> ('size, 'sku list) dict" where
  "sku_groups df [] g = g"
| "sku_groups df (sku # skus) (cg, sg) =
     (case df_row df sku of
        None \<Rightarrow> sku_groups df skus (cg, sg)
      | Some r \<Rightarrow> sku_groups df skus
                   (group_append (COLOR_CD r) sku cg, group_append (SIZE_CD r) sku sg))"

text \<open>The sum of the variables \<open>b[sku][j]\<close> of a group, for a target store \<open>j\<close>.\<close>

definition group_allocation ::
    "'sku list \<Rightarrow> 'store \<Rightarrow> ('sku, 'store, 'color, 'size) lp_var lp_expr" where
  "group_allocation skus j = map (\<lambda>sku. (1, B_var sku j)) skus"

definition store_coverage_constraints ::
    "('color, 'sku list) dict \<Rightarrow> ('size, 'sku list) dict \<Rightarrow> 'store \<Rightarrow>
     ('sku, 'store, 'color, 'size) lp_var lp_constraint list" where
  "store_coverage_constraints cg sg j =
     concat (map (\<lambda>(color, color_skus).
                    [LpGe (group_allocation color_skus j) [(1, Color_bin color j)] 0,
                     LpLe (group_allocation color_skus j)
                          [(real (length color_skus), Color_bin color j)] 0]) cg)
     @ [LpEq [(1, Color_coverage j)] (map (\<lambda>(color, _). (1, Color_bin color j)) cg) 0]
     @ concat (map (\<lambda>(size, size_skus).
                    [LpGe (group_allocation size_skus j) [(1, Size_bin size j)] 0,
                     LpLe (group_allocation size_skus j)
                          [(real (length size_skus), Size_bin size j)] 0]) sg)
     @ [LpEq [(1, Size_coverage j)] (map (\<lambda>(size, _). (1, Size_bin size j)) sg) 0]"

definition store_coverage_variables ::
    "('color, 'sku list) dict \<Rightarrow> ('size, 'sku list) dict \<Rightarrow> 'store \<Rightarrow>
     (('sku, 'store, 'color, 'size) lp_var \<times> lp_cat) list" where
  "store_coverage_variables cg sg j =
     map (\<lambda>(color, _). (Color_bin color j, LpBinary)) cg
     @ map (\<lambda>(size, _). (Size_bin size j, LpBinary)) sg"

text \<open>\<open>_add_coverage_constraints_step1\<close>: variables and constraints it adds.\<close>

definition add_coverage_constraints_step1 ::
    "('sku, 'color, 'size) sku_row list \<Rightarrow> 'sku list \<Rightarrow> 'store list \<Rightarrow> 'store list \<Rightarrow>
     (('sku, 'store, 'color, 'size) lp_var \<times> lp_cat) list \<times>
     ('sku, 'store, 'color, 'size) lp_var lp_constraint list" where
  "add_coverage_constraints_step1 df skus sts target_stores =
     (let (cg, sg) = sku_groups df skus ([], []);
          js = filter (\<lambda>j. j \<in> set target_stores) sts
      in (concat (map (store_coverage_variables cg sg) js),
          concat (map (store_coverage_constraints cg sg) js)))"

text \<open>
  The supply constraints of \<open>_add_step1_constraints\<close>, one per SKU in order;
  \<open>data['A'][i]\<close> raises \<open>KeyError\<close> for a SKU without a supply.
\<close>

fun supply_constraints ::
    "('sku, int) dict \<Rightarrow> 'store list \<Rightarrow> 'store list \<Rightarrow> 'sku list \<Rightarrow>
     'store py_error + ('sku, 'store, 'color, 'size) lp_var lp_constraint list" where
  "supply_constraints a sts target_stores [] = Inr []"
| "supply_constraints a sts target_stores (i # skus) =
     (case map_of a i of
        None \<Rightarrow> Inl KeyError
      | Some q \<Rightarrow>
          (case supply_constraints a sts target_stores skus of
             Inl e \<Rightarrow> Inl e
           | Inr cs \<Rightarrow>
               Inr (LpLe (map (\<lambda>j. (1, B_var i j)) (filter (\<lambda>j. j \<in> set target_stores) sts))
                         [] (real_of_int q) # cs)))"

text \<open>
  The whole model built by \<open>_step1_coverage_optimization\<close> before it calls the solver.
  The store limits are passed to \<open>_add_step1_constraints\<close> and not used there.
\<close>

definition step1_problem ::
    "('sku, 'store, 'color, 'size) data \<Rightarrow> 'store list \<Rightarrow>
     ('sku, 'color, 'size) sku_row list \<Rightarrow>
     'store py_error + ('sku, 'store, 'color, 'size) lp_var lp_problem" where
  "step1_problem dat target_stores df =
     (case supply_constraints (A dat) (stores dat) target_stores (SKUs dat) of
        Inl e \<Rightarrow> Inl e
      | Inr supply \<Rightarrow>
          (let (cov_vars, cov_constraints) =
                 add_coverage_constraints_step1 df (SKUs dat) (stores dat) target_stores
           in Inr \<lparr> variables =
                      create_binary_variables (SKUs dat) (stores dat) target_stores
                      @ create_coverage_variables (stores dat) target_stores (K_s dat) (L_s dat)
                      @ cov_vars,
                    objective =
                      set_coverage_objective (stores dat) target_stores (K_s dat) (L_s dat),
                    constraints = supply @ cov_constraints \<rparr>))"

text \<open>
  The solver is outside the repository: it is a parameter, a function from the model
  to a status code (1 is "optimal") and the values of the variables.
\<close>

type_synonym 'v lp_solver = "'v lp_problem \<Rightarrow> int \<times> ('v \<Rightarrow> real)"

datatype ('sku, 'store) step1_result =
    Step1_success "('sku \<times> 'store, int) dict" real nat
  | Step1_failed

text \<open>The pairs with \<open>varValue > 0.5\<close>, in the order of the two nested loops.\<close>

definition selected_combinations ::
    "'sku list \<Rightarrow> 'store list \<Rightarrow> 'store list \<Rightarrow>
     (('sku, 'store, 'color, 'size) lp_var \<Rightarrow> real) \<Rightarrow> ('sku \<times> 'store) list" where
  "selected_combinations skus sts target_stores \<sigma> =
     concat (map (\<lambda>i. map (\<lambda>j. (i, j))
                        (filter (\<lambda>j. j \<in> set target_stores \<and> \<sigma> (B_var i j) > 0.5) sts)) skus)"

text \<open>The Step 1 allocation: every selected pair is given the quantity 1.\<close>

definition step1_marks ::
    "'sku list \<Rightarrow> 'store list \<Rightarrow> 'store list \<Rightarrow>
     (('sku, 'store, 'color, 'size) lp_var \<Rightarrow> real) \<Rightarrow> ('sku \<times> 'store, int) dict" where
  "step1_marks skus sts target_stores \<sigma> =
     foldl (\<lambda>d k. dict_set k 1 d) [] (selected_combinations skus sts target_stores \<sigma>)"

definition step1_coverage_optimization ::
    "('sku, 'store, 'color, 'size) data \<Rightarrow> 'store list \<Rightarrow>
     ('sku, 'color, 'size) sku_row list \<Rightarrow>
     ('sku, 'store, 'color, 'size) lp_var lp_solver \<Rightarrow>
     'store py_error + ('sku, 'store) step1_result" where
  "step1_coverage_optimization dat target_stores df solve =
     (case step1_problem dat target_stores df of
        Inl e \<Rightarrow> Inl e
      | Inr P \<Rightarrow>
          (let (status, \<sigma>) = solve P in
           if status = 1 then
             (let selected = selected_combinations (SKUs dat) (stores dat) target_stores \<sigma>
              in Inr (Step1_success (step1_marks (SKUs dat) (stores dat) target_stores \<sigma>)
                                    (lp_value \<sigma> (objective P)) (length selected)))
           else Inr Step1_failed))"

section \<open>Store priorities\<close>

text \<open>
  \<open>_compute_mixed_weights\<close>. The global random source is the parameter \<open>rnd\<close>:
  \<open>rnd k\<close> is the value of the \<open>k\<close>-th call of \<open>random.random()\<close> made by this
  invocation. Volumes and scores are real numbers here.
\<close>

definition random_draws :: "'store list \<Rightarrow> (nat \<Rightarrow> real) \<Rightarrow> ('store, real) dict" where
  "random_draws target_stores rnd =
     foldl (\<lambda>d (j, k). dict_set j (rnd k) d) []
           (zip target_stores [0 ..< length target_stores])"

definition compute_mixed_weights ::
    "'store list \<Rightarrow> ('store, real) dict \<Rightarrow> real \<Rightarrow> (nat \<Rightarrow> real) \<Rightarrow>
     'store py_error + ('store, real) dict" where
  "compute_mixed_weights target_stores qsum alpha rnd =
     (if \<exists>j \<in> set target_stores. map_of qsum j = None then Inl KeyError
      else
        (case map (\<lambda>j. dict_get qsum j 0) target_stores of
           [] \<Rightarrow> Inl ValueError_empty_sequence
         | q # qs \<Rightarrow>
             (let qmin = fold min qs q;
                  qmax = fold max qs q;
                  w = (\<lambda>j. if qmax > qmin then (dict_get qsum j 0 - qmin) / (qmax - qmin)
                            else 1);
                  r = random_draws target_stores rnd
              in Inr (foldl (\<lambda>d j. dict_set j ((1 - alpha) * w j + alpha * dict_get r j 0) d)
                            [] target_stores))))"

text \<open>\<open>_calculate_store_priorities\<close>: the temperature is clamped to \<open>[0, 1]\<close> first.\<close>

definition calculate_store_priorities ::
    "'store list \<Rightarrow> ('store, real) dict \<Rightarrow> real \<Rightarrow> (nat \<Rightarrow> real) \<Rightarrow>
     'store py_error + ('store, real) dict" where
  "calculate_store_priorities target_stores qsum priority_temperature rnd =
     (let alpha = max 0 (min 1 priority_temperature)
      in compute_mixed_weights target_stores qsum alpha rnd)"

text \<open>
  \<open>weighted_stores.sort(key=lambda x: x[1], reverse=True)\<close>: a stable sort by
  descending weight.
\<close>

definition sort_by_weight :: "('store \<times> real) list \<Rightarrow> ('store \<times> real) list" where
  "sort_by_weight ws = sort_key (\<lambda>x. - snd x) ws"

section \<open>Step 2: one unit for every store still without the SKU\<close>

record scenario_params =
  coverage_weight :: real
  priority_temperature :: "real option"

text \<open>\<open>scenario_params.get('priority_temperature', 0.0)\<close>.\<close>

definition get_priority_temperature :: "scenario_params \<Rightarrow> real" where
  "get_priority_temperature params =
     (case priority_temperature params of None \<Rightarrow> 0 | Some t \<Rightarrow> t)"

type_synonym ('sku, 'store) allocation = "('sku \<times> 'store, int) dict"

text \<open>The inner loop of Step 2 over the sorted stores, for SKU \<open>i\<close>.\<close>

fun step2_fill ::
    "('store, int) dict \<Rightarrow> 'sku \<Rightarrow> int \<Rightarrow> ('store \<times> real) list \<Rightarrow>
     ('sku, 'store) allocation \<times> int \<times> int \<Rightarrow> ('sku, 'store) allocation \<times> int" where
  "step2_fill limits i remaining_quantity [] (alloc, allocated_this_sku, total_additional) = (alloc, total_additional)"
| "step2_fill limits i remaining_quantity ((j, weight) # ws) (alloc, allocated_this_sku, total_additional) =
     (if allocated_this_sku \<ge> remaining_quantity then (alloc, total_additional)
      else if dict_get alloc (i, j) 0 \<ge> dict_get limits j 0
      then step2_fill limits i remaining_quantity ws (alloc, allocated_this_sku, total_additional)
      else step2_fill limits i remaining_quantity ws
             (dict_set (i, j) (dict_get alloc (i, j) 0 + 1) alloc,
              allocated_this_sku + 1, total_additional + 1))"

text \<open>The outer loop of Step 2 over the SKUs.\<close>

fun step2_loop ::
    "('sku, int) dict \<Rightarrow> 'store list \<Rightarrow> ('store, int) dict \<Rightarrow> ('store, real) dict \<Rightarrow>
     'sku list \<Rightarrow> ('sku, 'store) allocation \<times> int \<Rightarrow>
     'store py_error + ('sku, 'store) allocation \<times> int" where
  "step2_loop a target_stores limits weights [] st = Inr st"
| "step2_loop a target_stores limits weights (i # skus) (alloc, total_additional) =
     (let unfilled_stores =
            filter (\<lambda>j. map_of alloc (i, j) = None \<or> map_of alloc (i, j) = Some 0) target_stores
      in if unfilled_stores = [] then step2_loop a target_stores limits weights skus (alloc, total_additional)
         else
           (let allocated_quantity =
                  sum_list (map (\<lambda>j. dict_get alloc (i, j) 0) target_stores)
            in case map_of a i of
                 None \<Rightarrow> Inl KeyError
               | Some supply \<Rightarrow>
                   (let remaining_quantity = supply - allocated_quantity
                    in if remaining_quantity \<le> 0
                       then step2_loop a target_stores limits weights skus (alloc, total_additional)
                       else
                         (let weighted_stores =
                                sort_by_weight
                                  (map (\<lambda>j. (j, dict_get weights j 0)) unfilled_stores)
                          in step2_loop a target_stores limits weights skus
                               (step2_fill limits i remaining_quantity weighted_stores
                                  (alloc, 0, total_additional))))))"

text \<open>\<open>_step2_single_allocation\<close>: the new allocation and the number of units added.\<close>

definition step2_single_allocation ::
    "('sku, 'store, 'color, 'size) data \<Rightarrow> 'store list \<Rightarrow> ('store, int) dict \<Rightarrow>
     ('sku, 'store) allocation \<Rightarrow> scenario_params \<Rightarrow> (nat \<Rightarrow> real) \<Rightarrow>
     'store py_error + ('sku, 'store) allocation \<times> int" where
  "step2_single_allocation dat target_stores limits step1_alloc params rnd =
     (case calculate_store_priorities target_stores (QSUM dat)
             (get_priority_temperature params) rnd of
        Inl e \<Rightarrow> Inl e
      | Inr store_priority_weights \<Rightarrow>
          step2_loop (A dat) target_stores limits store_priority_weights (SKUs dat)
            (step1_alloc, 0))"

section \<open>Step 3: the remaining supply, up to the tier limit\<close>

fun step3_fill ::
    "('store, int) dict \<Rightarrow> 'sku \<Rightarrow> ('store \<times> real) list \<Rightarrow>
     ('sku, 'store) allocation \<times> int \<times> int \<Rightarrow> ('sku, 'store) allocation \<times> int" where
  "step3_fill limits i [] (alloc, remaining_quantity, total_additional) = (alloc, total_additional)"
| "step3_fill limits i ((j, weight) # ws) (alloc, remaining_quantity, total_additional) =
     (if remaining_quantity \<le> 0 then (alloc, total_additional)
      else
        (let current_qty = dict_get alloc (i, j) 0;
             max_qty_per_sku = dict_get limits j 0;
             available_capacity = max_qty_per_sku - current_qty
         in if available_capacity \<le> 0
            then step3_fill limits i ws (alloc, remaining_quantity, total_additional)
            else
              (let allocate_quantity = min remaining_quantity available_capacity
               in step3_fill limits i ws
                    (dict_set (i, j) (dict_get alloc (i, j) 0 + allocate_quantity) alloc,
                     remaining_quantity - allocate_quantity, total_additional + allocate_quantity))))"

fun step3_loop ::
    "('sku, int) dict \<Rightarrow> 'store list \<Rightarrow> ('store, int) dict \<Rightarrow> ('store, real) dict \<Rightarrow>
     'sku list \<Rightarrow> ('sku, 'store) allocation \<times> int \<Rightarrow>
     'store py_error + ('sku, 'store) allocation \<times> int" where
  "step3_loop a target_stores limits weights [] st = Inr st"
| "step3_loop a target_stores limits weights (i # skus) (alloc, total_additional) =
     (let allocated_quantity = sum_list (map (\<lambda>j. dict_get alloc (i, j) 0) target_stores)
      in case map_of a i of
           None \<Rightarrow> Inl KeyError
         | Some supply \<Rightarrow>
             (let remaining_quantity = supply - allocated_quantity
              in if remaining_quantity \<le> 0
                 then step3_loop a target_stores limits weights skus (alloc, total_additional)
                 else
                   (let eligible_stores =
                          filter (\<lambda>j. dict_get alloc (i, j) 0 < dict_get limits j 0) target_stores
                    in if eligible_stores = []
                       then step3_loop a target_stores limits weights skus (alloc, total_additional)
                       else
                         (let weighted_stores =
                                sort_by_weight
                                  (map (\<lambda>j. (j, dict_get weights j 0)) eligible_stores)
                          in step3_loop a target_stores limits weights skus
                               (step3_fill limits i weighted_stores
                                  (alloc, remaining_quantity, total_additional))))))"

definition step3_remaining_allocation ::
    "('sku, 'store, 'color, 'size) data \<Rightarrow> 'store list \<Rightarrow> ('store, int) dict \<Rightarrow>
     ('sku, 'store) allocation \<Rightarrow> scenario_params \<Rightarrow> (nat \<Rightarrow> real) \<Rightarrow>
     'store py_error + ('sku, 'store) allocation \<times> int" where
  "step3_remaining_allocation dat target_stores limits step2_alloc params rnd =
     (case calculate_store_priorities target_stores (QSUM dat)
             (get_priority_temperature params) rnd of
        Inl e \<Rightarrow> Inl e
      | Inr store_priority_weights \<Rightarrow>
          step3_loop (A dat) target_stores limits store_priority_weights (SKUs dat)
            (step2_alloc, 0))"

section \<open>The pipeline \<open>optimize_three_step\<close>\<close>

text \<open>
  The attributes of the optimizer object that hold the per-stage snapshots, and the
  dictionary the pipeline returns. Wall-clock times are left out.
\<close>

record ('sku, 'store) optimizer_state =
  step1_allocation :: "('sku, 'store) allocation"
  allocation_after_step2 :: "('sku, 'store) allocation"
  allocation_after_step3 :: "('sku, 'store) allocation"

datatype run_status = Success | Failed

record ('sku, 'store) optimization_summary =
  status :: run_status
  final_allocation :: "('sku, 'store) allocation"
  total_allocated :: int
  step1_combinations :: nat
  step1_objective :: real
  step2_additional :: int
  step3_additional :: int

text \<open>
  Step 3 draws after Step 2 from the same global random source, so its draws start
  where those of Step 2 ended: one draw per element of \<open>target_stores\<close>.
\<close>

definition optimize_three_step ::
    "('sku, 'store, 'color, 'size) data \<Rightarrow> 'store list \<Rightarrow> ('store, int) dict \<Rightarrow>
     ('sku, 'color, 'size) sku_row list \<Rightarrow> scenario_params \<Rightarrow>
     ('sku, 'store, 'color, 'size) lp_var lp_solver \<Rightarrow> (nat \<Rightarrow> real) \<Rightarrow>
     'store py_error + ('sku, 'store) optimization_summary \<times> ('sku, 'store) optimizer_state"
    where
  "optimize_three_step dat target_stores store_allocation_limits df params solve rnd =
     (case step1_coverage_optimization dat target_stores df solve of
        Inl e \<Rightarrow> Inl e
      | Inr Step1_failed \<Rightarrow>
          Inr (\<lparr> status = Failed, final_allocation = [], total_allocated = 0,
                 step1_combinations = 0, step1_objective = 0,
                 step2_additional = 0, step3_additional = 0 \<rparr>,
               \<lparr> step1_allocation = [], allocation_after_step2 = [],
                 allocation_after_step3 = [] \<rparr>)
      | Inr (Step1_success alloc1 obj combos) \<Rightarrow>
          (case step2_single_allocation dat target_stores store_allocation_limits alloc1
                  params rnd of
             Inl e \<Rightarrow> Inl e
           | Inr (alloc2, add2) \<Rightarrow>
               (case step3_remaining_allocation dat target_stores store_allocation_limits
                       alloc2 params (\<lambda>k. rnd (k + length target_stores)) of
                  Inl e \<Rightarrow> Inl e
                | Inr (alloc3, add3) \<Rightarrow>
                    Inr (\<lparr> status = Success, final_allocation = alloc3,
                           total_allocated = sum_list (dict_values alloc3),
                           step1_combinations = combos, step1_objective = obj,
                           step2_additional = add2, step3_additional = add3 \<rparr>,
                         \<lparr> step1_allocation = alloc1, allocation_after_step2 = alloc2,
                           allocation_after_step3 = alloc3 \<rparr>))))"

section \<open>\<open>SKUClassifier.classify_skus\<close>\<close>

text \<open>
  The test of the inner loop: same colour and another size, or another colour and the
  same size.
\<close>

definition shares_one :: "'color \<Rightarrow> 'size \<Rightarrow> ('sku, 'color, 'size) sku_row \<Rightarrow> bool" where
  "shares_one color_cd size_cd r =
     ((color_cd = COLOR_CD r \<and> size_cd \<noteq> SIZE_CD r) \<or>
      (color_cd \<noteq> COLOR_CD r \<and> size_cd = SIZE_CD r))"

text \<open>
  The inner loop over all SKUs for one basic scarce SKU. The look-ups are not guarded
  here: a SKU without a row raises \<open>IndexError\<close>.
\<close>

fun related_loop ::
    "('sku, 'color, 'size) sku_row list \<Rightarrow> 'sku \<Rightarrow> 'color \<Rightarrow> 'size \<Rightarrow> 'sku list \<Rightarrow>
     'sku set \<Rightarrow> 'store py_error + 'sku set" where
  "related_loop df scarce_sku color_cd size_cd [] extended_scarce = Inr extended_scarce"
| "related_loop df scarce_sku color_cd size_cd (related_sku # skus) extended_scarce =
     (if related_sku \<noteq> scarce_sku then
        (case df_row df related_sku of
           None \<Rightarrow> Inl IndexError
         | Some r \<Rightarrow>
             related_loop df scarce_sku color_cd size_cd skus
               (if shares_one color_cd size_cd r then insert related_sku extended_scarce
                else extended_scarce))
      else related_loop df scarce_sku color_cd size_cd skus extended_scarce)"

text \<open>The outer loop over the basic scarce SKUs.\<close>

fun scarce_loop ::
    "('sku, 'color, 'size) sku_row list \<Rightarrow> 'sku list \<Rightarrow> 'sku list \<Rightarrow> 'sku set \<Rightarrow>
     'store py_error + 'sku set" where
  "scarce_loop df skus [] extended_scarce = Inr extended_scarce"
| "scarce_loop df skus (scarce_sku # rest) extended_scarce =
     (case df_row df scarce_sku of
        None \<Rightarrow> Inl IndexError
      | Some r \<Rightarrow>
          (case related_loop df scarce_sku (COLOR_CD r) (SIZE_CD r) skus extended_scarce of
             Inl e \<Rightarrow> Inl e
           | Inr extended \<Rightarrow> scarce_loop df skus rest extended))"

definition basic_scarce :: "('sku, int) dict \<Rightarrow> 'store list \<Rightarrow> 'sku list" where
  "basic_scarce a target_stores =
     map fst (filter (\<lambda>(sku, qty). qty < int (length target_stores)) a)"

text \<open>
  \<open>classify_skus\<close> returns the scarce SKUs, a list made from a set and so in no
  particular order (a set here), and the abundant SKUs in the order of \<open>A\<close>.
\<close>

definition classify_skus ::
    "('sku, 'color, 'size) sku_row list \<Rightarrow> ('sku, int) dict \<Rightarrow> 'store list \<Rightarrow>
     'store py_error + 'sku set \<times> 'sku list" where
  "classify_skus df a target_stores =
     (let skus = map fst a;
          basic = basic_scarce a target_stores
      in case scarce_loop df skus basic (set basic) of
           Inl e \<Rightarrow> Inl e
         | Inr extended_scarce \<Rightarrow>
             Inr (extended_scarce, filter (\<lambda>sku. sku \<notin> extended_scarce) skus))"

section \<open>\<open>StoreTierSystem\<close> and the tier look-ups\<close>

text \<open>
  The tier table \<open>TIER_CONFIG\<close> is a dictionary from the tier's name to its display
  name, its share of the stores and its limit. Ratios are real numbers here, and the
  display names are kept without their pictograms.
\<close>

datatype tier_name = TIER_1_HIGH | TIER_2_MEDIUM | TIER_3_LOW

record tier_info =
  display :: string
  ratio :: real
  max_sku_limit :: int

definition TIER_CONFIG :: "(tier_name, tier_info) dict" where
  "TIER_CONFIG =
     [(TIER_1_HIGH, \<lparr> display = ''T1 (HIGH)'', ratio = 3 / 10, max_sku_limit = 3 \<rparr>),
      (TIER_2_MEDIUM, \<lparr> display = ''T2 (MED)'', ratio = 2 / 10, max_sku_limit = 2 \<rparr>),
      (TIER_3_LOW, \<lparr> display = ''T3 (LOW)'', ratio = 5 / 10, max_sku_limit = 1 \<rparr>)]"

text \<open>\<open>get_store_tier\<close>: the tier of the store at a rank among \<open>total_stores\<close>.\<close>

definition get_store_tier ::
    "(tier_name, tier_info) dict \<Rightarrow> nat \<Rightarrow> nat \<Rightarrow> 'store py_error + tier_name" where
  "get_store_tier tier_config store_index total_stores =
     (case map_of tier_config TIER_1_HIGH of
        None \<Rightarrow> Inl KeyError
      | Some t1 \<Rightarrow>
          (case map_of tier_config TIER_2_MEDIUM of
             None \<Rightarrow> Inl KeyError
           | Some t2 \<Rightarrow>
               (let ratio_1 = ratio t1; ratio_2 = ratio t2
                in if real store_index < real total_stores * ratio_1 then Inr TIER_1_HIGH
                   else if real store_index < real total_stores * (ratio_1 + ratio_2)
                   then Inr TIER_2_MEDIUM
                   else Inr TIER_3_LOW)))"

text \<open>\<open>stores.index(store_id)\<close>: the first position, or none (a \<open>ValueError\<close>).\<close>

fun list_index :: "'a list \<Rightarrow> 'a \<Rightarrow> nat option" where
  "list_index [] x = None"
| "list_index (y # ys) x =
     (if y = x then Some 0
      else (case list_index ys x of None \<Rightarrow> None | Some n \<Rightarrow> Some (Suc n)))"

text \<open>
  The dictionary a tier look-up returns; the fallback of the integrated optimizer has no
  \<open>tier_display\<close> entry.
\<close>

record 'store store_tier_info =
  store_id :: 'store
  tier_name :: tier_name
  tier_display :: "string option"
  info_max_sku_limit :: int
  tier_ratio :: real

text \<open>
  \<open>StoreTierSystem.get_store_tier_info\<close>: the \<open>ValueError\<close> of the failed
  \<open>index\<close> is caught and raised again with a message that names the store.
\<close>

definition get_store_tier_info ::
    "(tier_name, tier_info) dict \<Rightarrow> 'store \<Rightarrow> 'store list \<Rightarrow>
     'store py_error + 'store store_tier_info" where
  "get_store_tier_info tier_config sid sts =
     (case list_index sts sid of
        None \<Rightarrow> Inl (ValueError_store_not_found sid)
      | Some store_index \<Rightarrow>
          (case get_store_tier tier_config store_index (length sts) of
             Inl e \<Rightarrow> Inl e
           | Inr tier \<Rightarrow>
               (case map_of tier_config tier of
                  None \<Rightarrow> Inl KeyError
                | Some info \<Rightarrow>
                    Inr \<lparr> store_id = sid, tier_name = tier,
                          tier_display = Some (display info),
                          info_max_sku_limit = max_sku_limit info,
                          tier_ratio = ratio info \<rparr>)))"

text \<open>
  \<open>IntegratedOptimizer._get_sku_store_tier_info\<close>: a bare \<open>except\<close> around the
  look-up returns a default, the lowest tier.
\<close>

definition get_sku_store_tier_info ::
    "(tier_name, tier_info) dict \<Rightarrow> 'sku \<Rightarrow> 'store \<Rightarrow> 'store list \<Rightarrow> 'store store_tier_info"
    where
  "get_sku_store_tier_info tier_config sku sid sku_target_stores =
     (case get_store_tier_info tier_config sid sku_target_stores of
        Inr info \<Rightarrow> info
      | Inl e \<Rightarrow>
          \<lparr> store_id = sid, tier_name = TIER_3_LOW, tier_display = None,
            info_max_sku_limit = 1, tier_ratio = 1 / 2 \<rparr>)"

text \<open>
  \<open>create_store_allocation_limits\<close>: the limit of every store of the ranked list, by
  its position.
\<close>

fun allocation_limits_loop ::
    "(tier_name, tier_info) dict \<Rightarrow> nat \<Rightarrow> (nat \<times> 'store) list \<Rightarrow> ('store, int) dict \<Rightarrow>
     'store py_error + ('store, int) dict" where
  "allocation_limits_loop tier_config total_stores [] limits = Inr limits"
| "allocation_limits_loop tier_config total_stores ((i, sid) # rest) limits =
     (case get_store_tier tier_config i total_stores of
        Inl e \<Rightarrow> Inl e
      | Inr tier \<Rightarrow>
          (case map_of tier_config tier of
             None \<Rightarrow> Inl KeyError
           | Some info \<Rightarrow>
               allocation_limits_loop tier_config total_stores rest
                 (dict_set sid (max_sku_limit info) limits)))"

definition create_store_allocation_limits ::
    "(tier_name, tier_info) dict \<Rightarrow> 'store list \<Rightarrow> 'store py_error + ('store, int) dict" where
  "create_store_allocation_limits tier_config sts =
     allocation_limits_loop tier_config (length sts) (zip [0 ..< length sts] sts) []"

section \<open>The MILP of \<open>CoverageOptimizer\<close> (logic4\_oneStyle)\<close>

text \<open>
  \<open>_add_store_limit_constraints\<close>: for every store of \<open>stores\<close> that is a target
  store, the marks of the scarce SKUs at the store sum to at most
  \<open>store_allocation_limits[j]\<close>; a target store without a limit raises \<open>KeyError\<close>.
\<close>

fun store_limit_constraints ::
    "('store, int) dict \<Rightarrow> 'sku list \<Rightarrow> 'store list \<Rightarrow> 'store list \<Rightarrow>
     'store py_error + ('sku, 'store, 'color, 'size) lp_var lp_constraint list" where
  "store_limit_constraints limits scarce_skus target_stores [] = Inr []"
| "store_limit_constraints limits scarce_skus target_stores (j # sts) =
     (if j \<in> set target_stores then
        (case map_of limits j of
           None \<Rightarrow> Inl KeyError
         | Some max_allocation \<Rightarrow>
             (case store_limit_constraints limits scarce_skus target_stores sts of
                Inl e \<Rightarrow> Inl e
              | Inr cs \<Rightarrow>
                  Inr (LpLe (map (\<lambda>i. (1, B_var i j)) scarce_skus) []
                         (real_of_int max_allocation) # cs)))
      else store_limit_constraints limits scarce_skus target_stores sts)"

text \<open>
  \<open>I_s[s]\<close>: the scarce SKUs that have a row in the data frame. The code builds the
  list from a set, so its order is not fixed; no constraint depends on it.
\<close>

definition scarce_in_df :: "('sku, 'color, 'size) sku_row list \<Rightarrow> 'sku list \<Rightarrow> 'sku list" where
  "scarce_in_df df scarce_skus = remdups (filter (\<lambda>i. i \<in> SKU ` set df) scarce_skus)"

text \<open>
  The constraints that link one indicator variable \<open>covered\<close> to the SKUs \<open>idx\<close> of
  its colour or size at store \<open>j\<close>.
\<close>

definition covered_constraints ::
    "'sku list \<Rightarrow> 'store \<Rightarrow> ('sku, 'store, 'color, 'size) lp_var \<Rightarrow>
     ('sku, 'store, 'color, 'size) lp_var lp_constraint list" where
  "covered_constraints idx j covered =
     (if idx \<noteq> [] then
        LpGe (map (\<lambda>i. (1, B_var i j)) idx) [(1, covered)] 0
        # map (\<lambda>i. LpLe [(1, B_var i j)] [(1, covered)] 0) idx
      else [LpEq [(1, covered)] [] 0])"

definition coverage_constraints_store ::
    "('sku, 'color, 'size) sku_row list \<Rightarrow> 'sku list \<Rightarrow> 'color list \<Rightarrow> 'size list \<Rightarrow>
     'store \<Rightarrow> ('sku, 'store, 'color, 'size) lp_var lp_constraint list" where
  "coverage_constraints_store df i_s ks ls j =
     concat (map (\<lambda>k. covered_constraints
                         (filter (\<lambda>i. case df_row df i of None \<Rightarrow> False
                                       | Some r \<Rightarrow> COLOR_CD r = k) i_s)
                         j (Color_bin k j)) ks)
     @ [LpEq [(1, Color_coverage j)] (map (\<lambda>k. (1, Color_bin k j)) ks) 0]
     @ concat (map (\<lambda>l. covered_constraints
                         (filter (\<lambda>i. case df_row df i of None \<Rightarrow> False
                                       | Some r \<Rightarrow> SIZE_CD r = l) i_s)
                         j (Size_bin l j)) ls)
     @ [LpEq [(1, Size_coverage j)] (map (\<lambda>l. (1, Size_bin l j)) ls) 0]"

text \<open>The model \<open>optimize_coverage\<close> hands to the solver.\<close>

definition coverage_problem ::
    "('sku, 'store, 'color, 'size) data \<Rightarrow> 'sku list \<Rightarrow> 'store list \<Rightarrow> ('store, int) dict \<Rightarrow>
     ('sku, 'color, 'size) sku_row list \<Rightarrow>
     'store py_error + ('sku, 'store, 'color, 'size) lp_var lp_problem" where
  "coverage_problem dat scarce_skus target_stores store_allocation_limits df =
     (let js = filter (\<lambda>j. j \<in> set target_stores) (stores dat) in
      case supply_constraints (A dat) (stores dat) target_stores scarce_skus of
        Inl e \<Rightarrow> Inl e
      | Inr supply_cs \<Rightarrow>
          (case store_limit_constraints store_allocation_limits scarce_skus target_stores
                  (stores dat) of
             Inl e \<Rightarrow> Inl e
           | Inr limit_cs \<Rightarrow>
               Inr \<lparr> variables =
                        create_binary_variables scarce_skus (stores dat) target_stores
                        @ create_coverage_variables (stores dat) target_stores
                            (K_s dat) (L_s dat)
                        @ concat (map (\<lambda>j. map (\<lambda>k. (Color_bin k j, LpBinary)) (K_s dat)
                                          @ map (\<lambda>l. (Size_bin l j, LpBinary)) (L_s dat)) js),
                      objective =
                        map (\<lambda>j. (1, Color_coverage j)) js
                        @ map (\<lambda>j. (1, Size_coverage j)) js,
                      constraints =
                        supply_cs @ limit_cs
                        @ concat (map (coverage_constraints_store df
                                         (scarce_in_df df scarce_skus) (K_s dat) (L_s dat))
                                      js) \<rparr>))"

text \<open>
  \<open>_save_results\<close>: \<open>b_hat[(i, j)]\<close> is the integer value of the variable, and 0 for
  a store that is no target store.
\<close>

definition save_results ::
    "'sku list \<Rightarrow> 'store list \<Rightarrow> 'store list \<Rightarrow>
     (('sku, 'store, 'color, 'size) lp_var \<Rightarrow> real) \<Rightarrow> ('sku \<times> 'store, int) dict" where
  "save_results scarce_skus sts target_stores \<sigma> =
     foldl (\<lambda>d (i, j). dict_set (i, j)
                          (if j \<in> set target_stores then \<lfloor>\<sigma> (B_var i j)\<rfloor> else 0) d)
           [] (concat (map (\<lambda>i. map (\<lambda>j. (i, j)) sts) scarce_skus))"

section \<open>Predicates used in the proofs\<close>

definition fill_ok :: "'sku \<Rightarrow> ('store, int) dict \<Rightarrow> 'store set \<Rightarrow> int \<Rightarrow>
    ('sku, 'store) allocation \<Rightarrow> ('sku, 'store) allocation \<Rightarrow> bool" where
  "fill_ok i limits js budget alloc alloc' =
     ((\<forall>k. dict_get alloc k 0 \<le> dict_get alloc' k 0) \<and>
      (\<forall>i' j. i' \<noteq> i \<longrightarrow> dict_get alloc' (i', j) 0 = dict_get alloc (i', j) 0) \<and>
      (\<forall>j. j \<notin> js \<longrightarrow> dict_get alloc' (i, j) 0 = dict_get alloc (i, j) 0) \<and>
      (\<forall>j. dict_get alloc' (i, j) 0 \<le> max (dict_get alloc (i, j) 0) (dict_get limits j 0)) \<and>
      (\<forall>S. finite S \<longrightarrow>
         (\<Sum>j\<in>S. dict_get alloc' (i, j) 0) \<le> (\<Sum>j\<in>S. dict_get alloc (i, j) 0) + budget) \<and>
      sum_list (dict_values alloc) \<le> sum_list (dict_values alloc') \<and>
      (\<forall>k. k \<in> dom (map_of alloc) \<longrightarrow> k \<in> dom (map_of alloc')))"

definition alloc_inv :: "('sku, int) dict \<Rightarrow> 'sku list \<Rightarrow> 'store list \<Rightarrow>
    ('sku, 'store) allocation \<Rightarrow> bool" where
  "alloc_inv a skus target_stores alloc =
     ((\<forall>k. 0 \<le> dict_get alloc k 0) \<and>
      (\<forall>i j. j \<notin> set target_stores \<longrightarrow> dict_get alloc (i, j) 0 = 0) \<and>
      (\<forall>i q S. i \<in> set skus \<longrightarrow> map_of a i = Some q \<longrightarrow> finite S \<longrightarrow>
         (\<Sum>j\<in>S. dict_get alloc (i, j) 0) \<le> q))"

definition grows :: "('store, int) dict \<Rightarrow> ('sku, 'store) allocation \<Rightarrow>
    ('sku, 'store) allocation \<Rightarrow> bool" where
  "grows limits alloc alloc' =
     ((\<forall>k. dict_get alloc k 0 \<le> dict_get alloc' k 0) \<and>
      (\<forall>i j. dict_get alloc' (i, j) 0 \<le> max (dict_get alloc (i, j) 0) (dict_get limits j 0)) \<and>
      sum_list (dict_values alloc) \<le> sum_list (dict_values alloc') \<and>
      (\<forall>k. k \<in> dom (map_of alloc) \<longrightarrow> k \<in> dom (map_of alloc')))"

definition solver_sound ::
    "('sku, 'store, 'color, 'size) data \<Rightarrow> 'store list \<Rightarrow> ('sku, 'color, 'size) sku_row list \<Rightarrow>
     ('sku, 'store, 'color, 'size) lp_var lp_solver \<Rightarrow> bool" where
  "solver_sound dat target_stores df solve =
     (case step1_problem dat target_stores df of
        Inl e \<Rightarrow> True
      | Inr P \<Rightarrow> fst (solve P) = 1 \<longrightarrow> lp_feasible P (snd (solve P)))"

section \<open>A concrete run\<close>

text \<open>
  One store of tier limit 3 and two SKUs of supply 5 each, of two colours and one size.
  The solver marks both SKUs for the store, which is an optimal solution of the model.
\<close>

definition ex_data :: "(nat, nat, nat, nat) data" where
  "ex_data = \<lparr> A = [(0, 5), (1, 5)], SKUs = [0, 1], stores = [0], QSUM = [(0, 10)],
               K_s = [0, 1], L_s = [0] \<rparr>"

definition ex_df :: "(nat, nat, nat) sku_row list" where
  "ex_df = [\<lparr> SKU = 0, COLOR_CD = 0, SIZE_CD = 0 \<rparr>, \<lparr> SKU = 1, COLOR_CD = 1, SIZE_CD = 0 \<rparr>]"

definition ex_params :: scenario_params where
  "ex_params = \<lparr> coverage_weight = 1, priority_temperature = Some 0 \<rparr>"

fun ex_sigma :: "(nat, nat, nat, nat) lp_var \<Rightarrow> real" where
  "ex_sigma (B_var i j) = 1"
| "ex_sigma (Color_coverage j) = 2"
| "ex_sigma (Size_coverage j) = 1"
| "ex_sigma (Color_bin c j) = 1"
| "ex_sigma (Size_bin s j) = 1"

definition ex_solver :: "(nat, nat, nat, nat) lp_var lp_solver" where
  "ex_solver P = (1, ex_sigma)"

definition ex_problem :: "(nat, nat, nat, nat) lp_var lp_problem" where
  "ex_problem = \<lparr>variables =
        [(B_var 0 0, LpBinary), (B_var 1 0, LpBinary),
         (Color_coverage 0, LpInteger 0 2),
         (Size_coverage 0, LpInteger 0 1), (Color_bin 0 0, LpBinary),
         (Color_bin 1 0, LpBinary), (Size_bin 0 0, LpBinary)],
        objective = [(1 / 2, Color_coverage 0), (1, Size_coverage 0)],
        constraints =
          [LpLe [(1, B_var 0 0)] [] 5, LpLe [(1, B_var 1 0)] [] 5,
           LpGe [(1, B_var 0 0)] [(1, Color_bin 0 0)] 0,
           LpLe [(1, B_var 0 0)] [(1, Color_bin 0 0)] 0,
           LpGe [(1, B_var 1 0)] [(1, Color_bin 1 0)] 0,
           LpLe [(1, B_var 1 0)] [(1, Color_bin 1 0)] 0,
           LpEq [(1, Color_coverage 0)]
            [(1, Color_bin 0 0), (1, Color_bin 1 0)] 0,
           LpGe [(1, B_var 0 0), (1, B_var 1 0)] [(1, Size_bin 0 0)] 0,
           LpLe [(1, B_var 0 0), (1, B_var 1 0)] [(2, Size_bin 0 0)] 0,
           LpEq [(1, Size_coverage 0)] [(1, Size_bin 0 0)] 0]\<rparr>"

definition ex_limits :: "(nat, int) dict" where
  "ex_limits = [(0, 3)]"

definition ex_summary :: "(nat, nat) optimization_summary" where
  "ex_summary =
     \<lparr> status = Success, final_allocation = [((0, 0), 3), ((1, 0), 3)],
       total_allocated = 6, step1_combinations = 2, step1_objective = 2,
       step2_additional = 0, step3_additional = 4 \<rparr>"

definition ex_state :: "(nat, nat) optimizer_state" where
  "ex_state =
     \<lparr> step1_allocation = [((0, 0), 1), ((1, 0), 1)],
       allocation_after_step2 = [((0, 0), 1), ((1, 0), 1)],
       allocation_after_step3 = [((0, 0), 3), ((1, 0), 3)] \<rparr>"

text \<open>
  The same run with a store limit of 1: Steps 2 and 3 add nothing to the marks of Step 1.
\<close>

definition ex_limits_one :: "(nat, int) dict" where
  "ex_limits_one = [(0, 1)]"

definition ex_summary_marks :: "(nat, nat) optimization_summary" where
  "ex_summary_marks =
     \<lparr> status = Success, final_allocation = [((0, 0), 1), ((1, 0), 1)],
       total_allocated = 2, step1_combinations = 2, step1_objective = 2,
       step2_additional = 0, step3_additional = 0 \<rparr>"

definition ex_state_marks :: "(nat, nat) optimizer_state" where
  "ex_state_marks =
     \<lparr> step1_allocation = [((0, 0), 1), ((1, 0), 1)],
       allocation_after_step2 = [((0, 0), 1), ((1, 0), 1)],
       allocation_after_step3 = [((0, 0), 1), ((1, 0), 1)] \<rparr>"

text \<open>A solution of the \<open>CoverageOptimizer\<close> model that marks SKU 0 only.\<close>

fun cov_sigma :: "(nat, nat, nat, nat) lp_var \<Rightarrow> real" where
  "cov_sigma (B_var i j) = (if i = 0 then 1 else 0)"
| "cov_sigma (Color_coverage j) = 1"
| "cov_sigma (Size_coverage j) = 1"
| "cov_sigma (Color_bin c j) = (if c = 0 then 1 else 0)"
| "cov_sigma (Size_bin s j) = 1"

text \<open>The \<open>CoverageOptimizer\<close> model of the run with store limit 1.\<close>

definition cov_problem :: "(nat, nat, nat, nat) lp_var lp_problem" where
  "cov_problem = \<lparr>variables =
        [(B_var 0 0, LpBinary), (B_var 1 0, LpBinary),
         (Color_coverage 0, LpInteger 0 2),
         (Size_coverage 0, LpInteger 0 1), (Color_bin 0 0, LpBinary),
         (Color_bin 1 0, LpBinary), (Size_bin 0 0, LpBinary)],
        objective = [(1, Color_coverage 0), (1, Size_coverage 0)],
        constraints =
          [LpLe [(1, B_var 0 0)] [] 5, LpLe [(1, B_var 1 0)] [] 5,
           LpLe [(1, B_var 0 0), (1, B_var 1 0)] [] 1,
           LpGe [(1, B_var 0 0)] [(1, Color_bin 0 0)] 0,
           LpLe [(1, B_var 0 0)] [(1, Color_bin 0 0)] 0,
           LpGe [(1, B_var 1 0)] [(1, Color_bin 1 0)] 0,
           LpLe [(1, B_var 1 0)] [(1, Color_bin 1 0)] 0,
           LpEq [(1, Color_coverage 0)]
            [(1, Color_bin 0 0), (1, Color_bin 1 0)] 0,
           LpGe [(1, B_var 0 0), (1, B_var 1 0)] [(1, Size_bin 0 0)] 0,
           LpLe [(1, B_var 0 0)] [(1, Size_bin 0 0)] 0,
           LpLe [(1, B_var 1 0)] [(1, Size_bin 0 0)] 0,
           LpEq [(1, Size_coverage 0)] [(1, Size_bin 0 0)] 0]\<rparr>"

text \<open>The data of the first run without any store.\<close>

definition ex_data_no_stores :: "(nat, nat, nat, nat) data" where
  "ex_data_no_stores = ex_data \<lparr> stores := [], QSUM := [] \<rparr>"

text \<open>
  A second run: two stores of volumes 20 and 10 with limits 3 and 2, a SKU of supply 3
  and a SKU of supply 1. The solver marks SKU 0 for both stores and SKU 1 for store 1.
\<close>

definition ex2_data :: "(int, int, nat, nat) data" where
  "ex2_data = \<lparr> A = [(0, 3), (1, 1)], SKUs = [0, 1], stores = [0, 1],
                QSUM = [(0, 20), (1, 10)], K_s = [0, 1], L_s = [0] \<rparr>"

definition ex2_df :: "(int, nat, nat) sku_row list" where
  "ex2_df = [\<lparr> SKU = 0, COLOR_CD = 0, SIZE_CD = 0 \<rparr>, \<lparr> SKU = 1, COLOR_CD = 1, SIZE_CD = 0 \<rparr>]"

definition ex2_limits :: "(int, int) dict" where
  "ex2_limits = [(0, 3), (1, 2)]"

fun ex2_sigma :: "(int, int, nat, nat) lp_var \<Rightarrow> real" where
  "ex2_sigma (B_var i j) = (if i = 1 \<and> j = 0 then 0 else 1)"
| "ex2_sigma (Color_coverage j) = (if j = 0 then 1 else 2)"
| "ex2_sigma (Size_coverage j) = 1"
| "ex2_sigma (Color_bin c j) = (if c = 1 \<and> j = 0 then 0 else 1)"
| "ex2_sigma (Size_bin s j) = 1"

definition ex2_solver :: "(int, int, nat, nat) lp_var lp_solver" where
  "ex2_solver P = (1, ex2_sigma)"

definition ex2_state :: "(int, int) optimizer_state" where
  "ex2_state =
     \<lparr> step1_allocation = [((0, 0), 1), ((0, 1), 1), ((1, 1), 1)],
       allocation_after_step2 = [((0, 0), 1), ((0, 1), 1), ((1, 1), 1)],
       allocation_after_step3 = [((0, 0), 2), ((0, 1), 1), ((1, 1), 1)] \<rparr>"

definition ex2_summary :: "(int, int) optimization_summary" where
  "ex2_summary =
     \<lparr> status = Success, final_allocation = [((0, 0), 2), ((0, 1), 1), ((1, 1), 1)],
       total_allocated = 4, step1_combinations = 3, step1_objective = 7 / 2,
       step2_additional = 0, step3_additional = 1 \<rparr>"

section \<open>The specification's own notions\<close>

text \<open>
  The min-max normalised volume of a store, in the specification's words: the volume
  scaled to \<open>[0, 1]\<close> between the least and the greatest volume of the target
  stores, and 1 for every store when all volumes tie.
\<close>

definition minmax_normalized :: "'store list \<Rightarrow> ('store, real) dict \<Rightarrow> 'store \<Rightarrow> real" where
  "minmax_normalized target_stores qsum j =
     (let volumes = (\<lambda>s. dict_get qsum s 0) ` set target_stores;
          lo = Min volumes;
          hi = Max volumes
      in if lo = hi then 1 else (dict_get qsum j 0 - lo) / (hi - lo))"

text \<open>A scenario with the given temperature, as \<open>EXPERIMENT_SCENARIOS\<close> lists them.\<close>

definition scenario :: "real \<Rightarrow> scenario_params" where
  "scenario t = \<lparr> coverage_weight = 1, priority_temperature = Some t \<rparr>"

text \<open>
  The specification's relation between two SKUs: they share the colour and differ in
  size, or share the size and differ in colour.
\<close>

definition related :: "('sku, 'color, 'size) sku_row list \<Rightarrow> 'sku \<Rightarrow> 'sku \<Rightarrow> bool" where
  "related df s r =
     (case (df_row df s, df_row df r) of
        (Some rs, Some rr) \<Rightarrow> shares_one (COLOR_CD rs) (SIZE_CD rs) rr
      | _ \<Rightarrow> False)"

text \<open>
  The specification's scarce set: the closure of the basic scarce SKUs under the
  relation, over the SKUs of \<open>A\<close>.
\<close>

inductive_set scarce_closure ::
    "('sku, 'color, 'size) sku_row list \<Rightarrow> ('sku, int) dict \<Rightarrow> 'store list \<Rightarrow> 'sku set"
    for df :: "('sku, 'color, 'size) sku_row list" and a :: "('sku, int) dict"
      and target_stores :: "'store list" where
  basic: "sku \<in> set (basic_scarce a target_stores) \<Longrightarrow> sku \<in> scarce_closure df a target_stores"
| step: "s \<in> scarce_closure df a target_stores \<Longrightarrow> r \<in> fst ` set a \<Longrightarrow> related df s r \<Longrightarrow>
         r \<in> scarce_closure df a target_stores"

text \<open>
  Three SKUs: 0 is red and small with supply 2, 1 is red and medium, 2 is blue and
  medium, both with supply 50; ten target stores.
\<close>

definition cx_df :: "(nat, nat, nat) sku_row list" where
  "cx_df = [\<lparr> SKU = 0, COLOR_CD = 0, SIZE_CD = 0 \<rparr>,
            \<lparr> SKU = 1, COLOR_CD = 0, SIZE_CD = 1 \<rparr>,
            \<lparr> SKU = 2, COLOR_CD = 1, SIZE_CD = 1 \<rparr>]"

definition cx_A :: "(nat, int) dict" where
  "cx_A = [(0, 2), (1, 50), (2, 50)]"

definition cx_stores :: "nat list" where
  "cx_stores = [0, 1, 2, 3, 4, 5, 6, 7, 8, 9]"

text \<open>
  The specification's own example: red-small with supply 2, red-medium and blue-small
  with supply 50.
\<close>

definition spec_df :: "(nat, nat, nat) sku_row list" where
  "spec_df = [\<lparr> SKU = 0, COLOR_CD = 0, SIZE_CD = 0 \<rparr>,
              \<lparr> SKU = 1, COLOR_CD = 0, SIZE_CD = 1 \<rparr>,
              \<lparr> SKU = 2, COLOR_CD = 1, SIZE_CD = 0 \<rparr>]"

section \<open>Properties of the greedy passes\<close>

subsection \<open>Dictionaries\<close>

lemma dict_get_set: "dict_get (dict_set k v d) k' x = (if k' = k then v else dict_get d k' x)"
  by (simp add: dict_get_def dict_set_def update_conv')

lemma map_of_dict_set: "map_of (dict_set k v d) = (map_of d)(k \<mapsto> v)"
  by (simp add: dict_set_def update_conv')

lemma sum_values_set:
  fixes v :: int
  shows "sum_list (dict_values (dict_set k v d)) = sum_list (dict_values d) + v - dict_get d k 0"
  by (induction d) (auto simp: dict_get_def dict_set_def dict_values_def)

lemma sum_set_le_sum_list:
  fixes f :: "'a \<Rightarrow> 'b::ordered_comm_monoid_add"
  assumes "\<And>x. x \<in> set xs \<Longrightarrow> 0 \<le> f x"
  shows "sum f (set xs) \<le> sum_list (map f xs)"
  using assms
proof (induction xs)
  case Nil then show ?case by simp
next
  case (Cons x xs)
  have "sum f (set (x # xs)) \<le> f x + sum f (set xs)"
    using Cons.prems by (cases "x \<in> set xs") (auto simp: sum.insert_if intro: add_increasing)
  also have "\<dots> \<le> f x + sum_list (map f xs)"
    using Cons by (intro add_left_mono) auto
  finally show ?case by simp
qed

lemma sum_dict_set:
  fixes v :: int
  assumes "finite S"
  shows "(\<Sum>j\<in>S. dict_get (dict_set (i, j0) v d) (i, j) 0) =
         (\<Sum>j\<in>S. dict_get d (i, j) 0) + (if j0 \<in> S then v - dict_get d (i, j0) 0 else 0)"
proof (cases "j0 \<in> S")
  case True
  then have S: "S = insert j0 (S - {j0})" by auto
  have "(\<Sum>j\<in>S - {j0}. dict_get (dict_set (i, j0) v d) (i, j) 0) = (\<Sum>j\<in>S - {j0}. dict_get d (i, j) 0)"
    by (intro sum.cong) (auto simp: dict_get_set)
  moreover have "(\<Sum>j\<in>S. dict_get (dict_set (i, j0) v d) (i, j) 0) =
     v + (\<Sum>j\<in>S - {j0}. dict_get (dict_set (i, j0) v d) (i, j) 0)"
    using assms True by (subst sum.remove[of S j0]) (auto simp: dict_get_set)
  moreover have "(\<Sum>j\<in>S. dict_get d (i, j) 0) = dict_get d (i, j0) 0 + (\<Sum>j\<in>S - {j0}. dict_get d (i, j) 0)"
    using assms True by (subst sum.remove[of S j0]) auto
  ultimately show ?thesis using True by simp
next
  case False
  then have "(\<Sum>j\<in>S. dict_get (dict_set (i, j0) v d) (i, j) 0) = (\<Sum>j\<in>S. dict_get d (i, j) 0)"
    by (intro sum.cong) (auto simp: dict_get_set)
  then show ?thesis using False by simp
qed

subsection \<open>One SKU: the inner loops\<close>

lemma fill_ok_refl: "0 \<le> budget \<Longrightarrow> fill_ok i limits js budget alloc alloc"
  by (simp add: fill_ok_def)

lemma fill_ok_step:
  assumes q: "0 < q" "q \<le> budget" and cap: "dict_get alloc (i, j) 0 + q \<le> dict_get limits j 0"
    and j: "j \<in> js"
    and rest: "fill_ok i limits js (budget - q) (dict_set (i, j) (dict_get alloc (i, j) 0 + q) alloc) alloc'"
  shows "fill_ok i limits js budget alloc alloc'"
proof -
  let ?a1 = "dict_set (i, j) (dict_get alloc (i, j) 0 + q) alloc"
  from rest have r1: "\<And>k. dict_get ?a1 k 0 \<le> dict_get alloc' k 0"
    and r2: "\<And>i' j'. i' \<noteq> i \<Longrightarrow> dict_get alloc' (i', j') 0 = dict_get ?a1 (i', j') 0"
    and r3: "\<And>j'. j' \<notin> js \<Longrightarrow> dict_get alloc' (i, j') 0 = dict_get ?a1 (i, j') 0"
    and r4: "\<And>j'. dict_get alloc' (i, j') 0 \<le> max (dict_get ?a1 (i, j') 0) (dict_get limits j' 0)"
    and r5: "\<And>S. finite S \<Longrightarrow>
         (\<Sum>j\<in>S. dict_get alloc' (i, j) 0) \<le> (\<Sum>j\<in>S. dict_get ?a1 (i, j) 0) + (budget - q)"
    and r6: "sum_list (dict_values ?a1) \<le> sum_list (dict_values alloc')"
    and r7: "\<And>k. k \<in> dom (map_of ?a1) \<Longrightarrow> k \<in> dom (map_of alloc')"
    unfolding fill_ok_def by blast+
  have g: "\<And>k. dict_get ?a1 k 0 = (if k = (i, j) then dict_get alloc (i, j) 0 + q else dict_get alloc k 0)"
    by (simp add: dict_get_set)
  have 1: "\<forall>k. dict_get alloc k 0 \<le> dict_get alloc' k 0"
  proof
    fix k
    have "dict_get alloc k 0 \<le> dict_get ?a1 k 0" using q by (simp add: g)
    also have "\<dots> \<le> dict_get alloc' k 0" by (rule r1)
    finally show "dict_get alloc k 0 \<le> dict_get alloc' k 0" .
  qed
  have 2: "\<forall>i' j'. i' \<noteq> i \<longrightarrow> dict_get alloc' (i', j') 0 = dict_get alloc (i', j') 0"
    using r2 by (simp add: g)
  have 3: "\<forall>j'. j' \<notin> js \<longrightarrow> dict_get alloc' (i, j') 0 = dict_get alloc (i, j') 0"
  proof (intro allI impI)
    fix j' assume "j' \<notin> js"
    then have "j' \<noteq> j" using j by auto
    moreover have "dict_get alloc' (i, j') 0 = dict_get ?a1 (i, j') 0"
      using \<open>j' \<notin> js\<close> by (rule r3)
    ultimately show "dict_get alloc' (i, j') 0 = dict_get alloc (i, j') 0" by (simp add: g)
  qed
  have 4: "\<forall>j'. dict_get alloc' (i, j') 0 \<le> max (dict_get alloc (i, j') 0) (dict_get limits j' 0)"
  proof
    fix j'
    have "dict_get alloc' (i, j') 0 \<le> max (dict_get ?a1 (i, j') 0) (dict_get limits j' 0)"
      by (rule r4)
    also have "\<dots> \<le> max (dict_get alloc (i, j') 0) (dict_get limits j' 0)"
      using cap by (auto simp: g)
    finally show "dict_get alloc' (i, j') 0 \<le> max (dict_get alloc (i, j') 0) (dict_get limits j' 0)" .
  qed
  have 5: "\<forall>S. finite S \<longrightarrow>
         (\<Sum>j\<in>S. dict_get alloc' (i, j) 0) \<le> (\<Sum>j\<in>S. dict_get alloc (i, j) 0) + budget"
  proof (intro allI impI)
    fix S :: "'b set" assume S: "finite S"
    have "(\<Sum>j\<in>S. dict_get alloc' (i, j) 0) \<le> (\<Sum>j\<in>S. dict_get ?a1 (i, j) 0) + (budget - q)"
      using S by (rule r5)
    also have "(\<Sum>j\<in>S. dict_get ?a1 (i, j) 0) \<le> (\<Sum>j\<in>S. dict_get alloc (i, j) 0) + q"
      using q by (simp add: sum_dict_set[OF S])
    finally show "(\<Sum>j\<in>S. dict_get alloc' (i, j) 0) \<le> (\<Sum>j\<in>S. dict_get alloc (i, j) 0) + budget"
      by simp
  qed
  have 6: "sum_list (dict_values alloc) \<le> sum_list (dict_values alloc')"
  proof -
    have "sum_list (dict_values alloc) \<le> sum_list (dict_values ?a1)"
      using q by (simp add: sum_values_set)
    also have "\<dots> \<le> sum_list (dict_values alloc')" by (rule r6)
    finally show ?thesis .
  qed
  have 7: "\<forall>k. k \<in> dom (map_of alloc) \<longrightarrow> k \<in> dom (map_of alloc')"
  proof (intro allI impI)
    fix k assume "k \<in> dom (map_of alloc)"
    then have "k \<in> dom (map_of ?a1)" by (auto simp: map_of_dict_set)
    then show "k \<in> dom (map_of alloc')" by (rule r7)
  qed
  show ?thesis unfolding fill_ok_def using 1 2 3 4 5 6 7 by blast
qed

lemma step2_fill_ok:
  "step2_fill limits i rem ws (alloc, this, tot) = (alloc', tot') \<Longrightarrow> this \<le> rem \<Longrightarrow>
   fst ` set ws \<subseteq> js \<Longrightarrow>
   fill_ok i limits js (rem - this) alloc alloc' \<and> tot \<le> tot'"
proof (induction limits i rem ws "(alloc, this, tot)" arbitrary: alloc this tot rule: step2_fill.induct)
  case (1 limits i rem alloc this tot)
  then show ?case by (simp add: fill_ok_refl)
next
  case (2 limits i rem j weight ws alloc this tot)
  have js: "fst ` set ws \<subseteq> js" "j \<in> js" using 2(5) by auto
  show ?case
  proof (cases "this \<ge> rem")
    case True then show ?thesis using 2(3,4) by (simp add: fill_ok_refl)
  next
    case F: False
    show ?thesis
    proof (cases "dict_get alloc (i, j) 0 \<ge> dict_get limits j 0")
      case True
      then show ?thesis using 2(1)[OF F True _ 2(4) js(1)] 2(3) F by simp
    next
      case False
      let ?a1 = "dict_set (i, j) (dict_get alloc (i, j) 0 + 1) alloc"
      have eq: "step2_fill limits i rem ws (?a1, this + 1, tot + 1) = (alloc', tot')"
        using 2(3) F False by simp
      have "this + 1 \<le> rem" using F by simp
      from 2(2)[OF F False eq this js(1)]
      have r: "fill_ok i limits js (rem - this - 1) ?a1 alloc'" and t: "tot + 1 \<le> tot'"
        by (simp_all add: algebra_simps)
      have "fill_ok i limits js (rem - this) alloc alloc'"
        by (rule fill_ok_step[where q = 1 and j = j]) (use F False js r in auto)
      then show ?thesis using t by simp
    qed
  qed
qed

lemma step3_fill_ok:
  "step3_fill limits i ws (alloc, rem, tot) = (alloc', tot') \<Longrightarrow>
   fst ` set ws \<subseteq> js \<Longrightarrow>
   fill_ok i limits js (max 0 rem) alloc alloc' \<and> tot \<le> tot'"
proof (induction limits i ws "(alloc, rem, tot)" arbitrary: alloc rem tot rule: step3_fill.induct)
  case (1 limits i alloc rem tot)
  then show ?case by (simp add: fill_ok_refl)
next
  case (2 limits i j weight ws alloc rem tot)
  have js: "fst ` set ws \<subseteq> js" "j \<in> js" using 2(4) by auto
  show ?case
  proof (cases "rem \<le> 0")
    case True then show ?thesis using 2(3) by (simp add: fill_ok_refl)
  next
    case F: False
    let ?av = "dict_get limits j 0 - dict_get alloc (i, j) 0"
    show ?thesis
    proof (cases "?av \<le> 0")
      case True
      then show ?thesis using 2(1)[OF F refl refl refl True _ js(1)] 2(3) F by (simp add: Let_def)
    next
      case False
      let ?q = "min rem ?av"
      let ?a1 = "dict_set (i, j) (dict_get alloc (i, j) 0 + ?q) alloc"
      have eq: "step3_fill limits i ws (?a1, rem - ?q, tot + ?q) = (alloc', tot')"
        using 2(3) F False by (simp add: Let_def)
      from 2(2)[OF F refl refl refl False refl eq js(1)]
      have r: "fill_ok i limits js (max 0 (rem - ?q)) ?a1 alloc'" and t: "tot + ?q \<le> tot'"
        by simp_all
      have q: "0 < ?q" "?q \<le> rem" using F False by auto
      have r': "fill_ok i limits js (max 0 rem - ?q) ?a1 alloc'"
        using r q F by (simp add: max_def split: if_splits)
      have "fill_ok i limits js (max 0 rem) alloc alloc'"
        by (rule fill_ok_step[where q = ?q and j = j]) (use F False js r' q in auto)
      moreover have "tot \<le> tot'" using t q(1) by linarith
      ultimately show ?thesis by simp
    qed
  qed
qed

subsection \<open>All SKUs: the outer loops\<close>

lemma grows_refl: "grows limits alloc alloc"
  by (simp add: grows_def)

lemma grows_trans:
  assumes "grows limits a1 a2" "grows limits a2 a3"
  shows "grows limits a1 a3"
proof -
  from assms(1) have p1: "\<And>k. dict_get a1 k 0 \<le> dict_get a2 k 0"
    and p2: "\<And>i j. dict_get a2 (i, j) 0 \<le> max (dict_get a1 (i, j) 0) (dict_get limits j 0)"
    and p3: "sum_list (dict_values a1) \<le> sum_list (dict_values a2)"
    and p4: "\<And>k. k \<in> dom (map_of a1) \<Longrightarrow> k \<in> dom (map_of a2)"
    unfolding grows_def by blast+
  from assms(2) have q1: "\<And>k. dict_get a2 k 0 \<le> dict_get a3 k 0"
    and q2: "\<And>i j. dict_get a3 (i, j) 0 \<le> max (dict_get a2 (i, j) 0) (dict_get limits j 0)"
    and q3: "sum_list (dict_values a2) \<le> sum_list (dict_values a3)"
    and q4: "\<And>k. k \<in> dom (map_of a2) \<Longrightarrow> k \<in> dom (map_of a3)"
    unfolding grows_def by blast+
  have 1: "\<forall>k. dict_get a1 k 0 \<le> dict_get a3 k 0"
    using p1 q1 order_trans by blast
  have 2: "\<forall>i j. dict_get a3 (i, j) 0 \<le> max (dict_get a1 (i, j) 0) (dict_get limits j 0)"
  proof (intro allI)
    fix i j
    show "dict_get a3 (i, j) 0 \<le> max (dict_get a1 (i, j) 0) (dict_get limits j 0)"
      using p2[of i j] q2[of i j] by linarith
  qed
  have 3: "sum_list (dict_values a1) \<le> sum_list (dict_values a3)" using p3 q3 by linarith
  have 4: "\<forall>k. k \<in> dom (map_of a1) \<longrightarrow> k \<in> dom (map_of a3)" using p4 q4 by blast
  show ?thesis unfolding grows_def using 1 2 3 4 by blast
qed

lemma sum_le_list_sum:
  assumes nonneg: "\<And>j. 0 \<le> dict_get alloc (i, j) (0::int)"
    and supp: "\<And>j. j \<notin> set ts \<Longrightarrow> dict_get alloc (i, j) 0 = 0"
    and S: "finite S"
  shows "(\<Sum>j\<in>S. dict_get alloc (i, j) 0) \<le> sum_list (map (\<lambda>j. dict_get alloc (i, j) 0) ts)"
proof -
  have "(\<Sum>j\<in>S. dict_get alloc (i, j) 0) = (\<Sum>j\<in>S \<inter> set ts. dict_get alloc (i, j) 0)"
    by (rule sum.mono_neutral_right) (use S supp in auto)
  also have "\<dots> \<le> (\<Sum>j\<in>set ts. dict_get alloc (i, j) 0)"
    by (rule sum_mono2) (use nonneg in auto)
  also have "\<dots> \<le> sum_list (map (\<lambda>j. dict_get alloc (i, j) 0) ts)"
    by (rule sum_set_le_sum_list) (rule nonneg)
  finally show ?thesis .
qed

lemma sku_step:
  assumes f: "fill_ok i limits js budget alloc alloc1"
    and js: "js \<subseteq> set ts"
    and inv: "alloc_inv a skus ts alloc"
    and q: "map_of a i = Some q"
    and b: "budget \<le> q - sum_list (map (\<lambda>j. dict_get alloc (i, j) 0) ts)"
  shows "alloc_inv a skus ts alloc1"
proof -
  from f have f1: "\<And>k. dict_get alloc k 0 \<le> dict_get alloc1 k 0"
    and f2: "\<And>i' j. i' \<noteq> i \<Longrightarrow> dict_get alloc1 (i', j) 0 = dict_get alloc (i', j) 0"
    and f3: "\<And>j. j \<notin> js \<Longrightarrow> dict_get alloc1 (i, j) 0 = dict_get alloc (i, j) 0"
    and f4: "\<And>j. dict_get alloc1 (i, j) 0 \<le> max (dict_get alloc (i, j) 0) (dict_get limits j 0)"
    and f5: "\<And>S. finite S \<Longrightarrow>
         (\<Sum>j\<in>S. dict_get alloc1 (i, j) 0) \<le> (\<Sum>j\<in>S. dict_get alloc (i, j) 0) + budget"
    and f6: "sum_list (dict_values alloc) \<le> sum_list (dict_values alloc1)"
    and f7: "\<And>k. k \<in> dom (map_of alloc) \<Longrightarrow> k \<in> dom (map_of alloc1)"
    unfolding fill_ok_def by blast+
  from inv have i1: "\<And>k. 0 \<le> dict_get alloc k 0"
    and i2: "\<And>i j. j \<notin> set ts \<Longrightarrow> dict_get alloc (i, j) 0 = 0"
    and i3: "\<And>i q S. i \<in> set skus \<Longrightarrow> map_of a i = Some q \<Longrightarrow> finite S \<Longrightarrow>
         (\<Sum>j\<in>S. dict_get alloc (i, j) 0) \<le> q"
    unfolding alloc_inv_def by blast+
  have 1: "\<forall>k. 0 \<le> dict_get alloc1 k 0"
    using i1 f1 order_trans by blast
  have 2: "\<forall>i' j. j \<notin> set ts \<longrightarrow> dict_get alloc1 (i', j) 0 = 0"
  proof (intro allI impI)
    fix i' j assume j: "j \<notin> set ts"
    then have "j \<notin> js" using js by auto
    then have "dict_get alloc1 (i', j) 0 = dict_get alloc (i', j) 0"
      using f2[of i' j] f3[of j] by (cases "i' = i") auto
    then show "dict_get alloc1 (i', j) 0 = 0" using i2[OF j] by simp
  qed
  have 3: "\<forall>i' q' S. i' \<in> set skus \<longrightarrow> map_of a i' = Some q' \<longrightarrow> finite S \<longrightarrow>
         (\<Sum>j\<in>S. dict_get alloc1 (i', j) 0) \<le> q'"
  proof (intro allI impI)
    fix i' q' and S :: "'b set"
    assume i': "i' \<in> set skus" and q': "map_of a i' = Some q'" and S: "finite S"
    show "(\<Sum>j\<in>S. dict_get alloc1 (i', j) 0) \<le> q'"
    proof (cases "i' = i")
      case True
      have "(\<Sum>j\<in>S. dict_get alloc (i, j) 0) \<le> sum_list (map (\<lambda>j. dict_get alloc (i, j) 0) ts)"
        by (rule sum_le_list_sum) (use i1 i2 S in auto)
      then have "(\<Sum>j\<in>S. dict_get alloc1 (i, j) 0) \<le> q"
        using f5[OF S] b by linarith
      then show ?thesis using True q q' by simp
    next
      case False
      then have "(\<Sum>j\<in>S. dict_get alloc1 (i', j) 0) = (\<Sum>j\<in>S. dict_get alloc (i', j) 0)"
        using f2 by simp
      then show ?thesis using i3[OF i' q' S] by simp
    qed
  qed
  show "alloc_inv a skus ts alloc1" unfolding alloc_inv_def using 1 2 3 by blast
qed

lemma fill_ok_grows:
  assumes f: "fill_ok i limits js budget alloc alloc1"
  shows "grows limits alloc alloc1"
proof -
  from f have f1: "\<And>k. dict_get alloc k 0 \<le> dict_get alloc1 k 0"
    and f2: "\<And>i' j. i' \<noteq> i \<Longrightarrow> dict_get alloc1 (i', j) 0 = dict_get alloc (i', j) 0"
    and f4: "\<And>j. dict_get alloc1 (i, j) 0 \<le> max (dict_get alloc (i, j) 0) (dict_get limits j 0)"
    and f6: "sum_list (dict_values alloc) \<le> sum_list (dict_values alloc1)"
    and f7: "\<And>k. k \<in> dom (map_of alloc) \<Longrightarrow> k \<in> dom (map_of alloc1)"
    unfolding fill_ok_def by blast+
  have 4: "\<forall>i' j. dict_get alloc1 (i', j) 0 \<le> max (dict_get alloc (i', j) 0) (dict_get limits j 0)"
  proof (intro allI)
    fix i' j
    show "dict_get alloc1 (i', j) 0 \<le> max (dict_get alloc (i', j) 0) (dict_get limits j 0)"
      using f2[of i' j] f4[of j] by (cases "i' = i") auto
  qed
  show ?thesis unfolding grows_def using f1 4 f6 f7 by blast
qed

lemma step2_loop_inv:
  "step2_loop a ts limits w skus (alloc, tot) = Inr (alloc', tot') \<Longrightarrow>
   grows limits alloc alloc' \<and> tot \<le> tot' \<and>
   (alloc_inv a sk ts alloc \<longrightarrow> alloc_inv a sk ts alloc')"
proof (induction skus arbitrary: alloc tot)
  case Nil
  then show ?case by (simp add: grows_refl)
next
  case (Cons i skus)
  define unfilled where
    "unfilled = filter (\<lambda>j. map_of alloc (i, j) = None \<or> map_of alloc (i, j) = Some 0) ts"
  define L where "L = sum_list (map (\<lambda>j. dict_get alloc (i, j) 0) ts)"
  show ?case
  proof (cases "unfilled = []")
    case True
    then have "step2_loop a ts limits w skus (alloc, tot) = Inr (alloc', tot')"
      using Cons.prems(1) by (simp add: unfilled_def)
    then show ?thesis using Cons.IH by blast
  next
    case U: False
    show ?thesis
    proof (cases "map_of a i")
      case None
      then show ?thesis using Cons.prems(1) U by (simp add: unfilled_def)
    next
      case (Some q)
      show ?thesis
      proof (cases "q - L \<le> 0")
        case True
        then have "step2_loop a ts limits w skus (alloc, tot) = Inr (alloc', tot')"
          using Cons.prems(1) U Some by (simp add: unfilled_def L_def)
        then show ?thesis using Cons.IH by blast
      next
        case False
        define ws where "ws = sort_by_weight (map (\<lambda>j. (j, dict_get w j 0)) unfilled)"
        obtain alloc1 tot1 where fill: "step2_fill limits i (q - L) ws (alloc, 0, tot) = (alloc1, tot1)"
          by (cases "step2_fill limits i (q - L) ws (alloc, 0, tot)") auto
        have rest: "step2_loop a ts limits w skus (alloc1, tot1) = Inr (alloc', tot')"
          using Cons.prems(1) U Some False fill
          by (simp add: unfilled_def[symmetric] L_def[symmetric] ws_def[symmetric] Let_def)
        have sub: "fst ` set ws \<subseteq> set ts"
          by (auto simp: ws_def sort_by_weight_def unfilled_def)
        from step2_fill_ok[OF fill _ sub] False
        have f: "fill_ok i limits (set ts) (q - L) alloc alloc1" and t: "tot \<le> tot1" by auto
        have g1: "grows limits alloc alloc1" by (rule fill_ok_grows[OF f])
        have inv1: "alloc_inv a sk ts alloc1" if "alloc_inv a sk ts alloc"
          using sku_step[OF f subset_refl that Some] by (simp add: L_def)
        from Cons.IH[OF rest]
        have r: "grows limits alloc1 alloc'" "tot1 \<le> tot'"
          "alloc_inv a sk ts alloc1 \<longrightarrow> alloc_inv a sk ts alloc'" by auto
        have "grows limits alloc alloc'" by (rule grows_trans[OF g1 r(1)])
        moreover have "tot \<le> tot'" using t r(2) by linarith
        ultimately show ?thesis using inv1 r(3) by blast
      qed
    qed
  qed
qed

lemma step3_loop_inv:
  "step3_loop a ts limits w skus (alloc, tot) = Inr (alloc', tot') \<Longrightarrow>
   grows limits alloc alloc' \<and> tot \<le> tot' \<and>
   (alloc_inv a sk ts alloc \<longrightarrow> alloc_inv a sk ts alloc')"
proof (induction skus arbitrary: alloc tot)
  case Nil
  then show ?case by (simp add: grows_refl)
next
  case (Cons i skus)
  define L where "L = sum_list (map (\<lambda>j. dict_get alloc (i, j) 0) ts)"
  define eligible where
    "eligible = filter (\<lambda>j. dict_get alloc (i, j) 0 < dict_get limits j 0) ts"
  show ?case
  proof (cases "map_of a i")
    case None
    then show ?thesis using Cons.prems(1) by simp
  next
    case (Some q)
    show ?thesis
    proof (cases "q - L \<le> 0 \<or> eligible = []")
      case True
      then have "step3_loop a ts limits w skus (alloc, tot) = Inr (alloc', tot')"
        using Cons.prems(1) Some by (auto simp: eligible_def L_def Let_def split: if_splits)
      then show ?thesis using Cons.IH by blast
    next
      case False
      define ws where "ws = sort_by_weight (map (\<lambda>j. (j, dict_get w j 0)) eligible)"
      obtain alloc1 tot1 where fill: "step3_fill limits i ws (alloc, q - L, tot) = (alloc1, tot1)"
        by (cases "step3_fill limits i ws (alloc, q - L, tot)") auto
      have rest: "step3_loop a ts limits w skus (alloc1, tot1) = Inr (alloc', tot')"
        using Cons.prems(1) Some False fill
        by (simp add: eligible_def[symmetric] L_def[symmetric] ws_def[symmetric] Let_def)
      have sub: "fst ` set ws \<subseteq> set ts"
        by (auto simp: ws_def sort_by_weight_def eligible_def)
      from step3_fill_ok[OF fill sub] False
      have f: "fill_ok i limits (set ts) (q - L) alloc alloc1" and t: "tot \<le> tot1"
        by (auto simp: max_def)
      have g1: "grows limits alloc alloc1" by (rule fill_ok_grows[OF f])
      have inv1: "alloc_inv a sk ts alloc1" if "alloc_inv a sk ts alloc"
        using sku_step[OF f subset_refl that Some] by (simp add: L_def)
      from Cons.IH[OF rest]
      have r: "grows limits alloc1 alloc'" "tot1 \<le> tot'"
        "alloc_inv a sk ts alloc1 \<longrightarrow> alloc_inv a sk ts alloc'" by auto
      have "grows limits alloc alloc'" by (rule grows_trans[OF g1 r(1)])
      moreover have "tot \<le> tot'" using t r(2) by linarith
      ultimately show ?thesis using inv1 r(3) by blast
    qed
  qed
qed

subsection \<open>Step 1 and the whole pipeline\<close>

lemma dict_get_foldl_set1:
  "dict_get (foldl (\<lambda>d k. dict_set k (1::int) d) d0 ks) k 0 =
     (if k \<in> set ks then 1 else dict_get d0 k 0)"
  by (induction ks arbitrary: d0) (auto simp: dict_get_set)

lemma dict_get_Nil: "dict_get [] k x = x"
  by (simp add: dict_get_def)

lemma dict_get_step1_marks:
  "dict_get (step1_marks skus sts ts \<sigma>) (i, j) 0 =
     (if i \<in> set skus \<and> j \<in> set sts \<and> j \<in> set ts \<and> \<sigma> (B_var i j) > 1 / 2 then 1 else 0)"
  by (auto simp: step1_marks_def dict_get_foldl_set1 selected_combinations_def dict_get_Nil)

lemma supply_constraints_holds:
  "supply_constraints a sts ts skus = Inr cs \<Longrightarrow> list_all (lp_holds \<sigma>) cs \<Longrightarrow>
   i \<in> set skus \<Longrightarrow> map_of a i = Some q \<Longrightarrow>
   sum_list (map (\<lambda>j. \<sigma> (B_var i j)) (filter (\<lambda>j. j \<in> set ts) sts)) \<le> real_of_int q"
proof (induction skus arbitrary: cs)
  case Nil
  then show ?case by simp
next
  case (Cons i' skus)
  from Cons.prems(1) obtain q' cs' where q': "map_of a i' = Some q'"
    and cs': "supply_constraints a sts ts skus = Inr cs'"
    and cs: "cs = LpLe (map (\<lambda>j. (1, B_var i' j)) (filter (\<lambda>j. j \<in> set ts) sts)) [] (real_of_int q') # cs'"
    by (auto split: option.splits sum.splits)
  show ?case
  proof (cases "i = i'")
    case True
    have "lp_holds \<sigma> (LpLe (map (\<lambda>j. (1, B_var i' j)) (filter (\<lambda>j. j \<in> set ts) sts)) [] (real_of_int q'))"
      using Cons.prems(2) cs by simp
    then show ?thesis using True q' Cons.prems(4) by (simp add: lp_value_def comp_def)
  next
    case False
    then show ?thesis using Cons.IH[OF cs'] Cons.prems cs by simp
  qed
qed

lemma step1_problem_parts:
  assumes "step1_problem dat ts df = Inr P"
  obtains sc where "supply_constraints (A dat) (stores dat) ts (SKUs dat) = Inr sc"
    and "set sc \<subseteq> set (constraints P)"
    and "set (create_binary_variables (SKUs dat) (stores dat) ts) \<subseteq> set (variables P)"
    and "objective P = set_coverage_objective (stores dat) ts (K_s dat) (L_s dat)"
  using assms
  by (auto simp: step1_problem_def split: sum.splits prod.splits)

lemma step1_alloc_inv:
  fixes dat :: "('sku, 'store, 'color, 'size) data"
  assumes P: "step1_problem dat ts df = Inr P" and feas: "lp_feasible P \<sigma>"
  shows "alloc_inv (A dat) (SKUs dat) ts (step1_marks (SKUs dat) (stores dat) ts \<sigma>)"
proof -
  let ?al = "step1_marks (SKUs dat) (stores dat) ts \<sigma>"
  let ?F = "filter (\<lambda>j. j \<in> set ts) (stores dat)"
  from P obtain sc where sup: "supply_constraints (A dat) (stores dat) ts (SKUs dat) = Inr sc"
    and sub: "set sc \<subseteq> set (constraints P)"
    and vars: "set (create_binary_variables (SKUs dat) (stores dat) ts) \<subseteq> set (variables P)"
    by (rule step1_problem_parts)
  have hold: "list_all (lp_holds \<sigma>) sc"
    using feas sub by (auto simp: lp_feasible_def list_all_iff)
  have bin: "\<sigma> (B_var i j) = 0 \<or> \<sigma> (B_var i j) = 1" if "i \<in> set (SKUs dat)" "j \<in> set ?F" for i j
  proof -
    have "(B_var i j, LpBinary) \<in> set (variables P)"
      using that vars by (auto simp: create_binary_variables_def)
    then have "lp_in_cat LpBinary (\<sigma> (B_var i j))"
      using feas by (auto simp: lp_feasible_def list_all_iff)
    then show ?thesis by simp
  qed
  have 3: "(\<Sum>j\<in>S. dict_get ?al (i, j) 0) \<le> q"
    if i: "i \<in> set (SKUs dat)" and q: "map_of (A dat) i = Some q" and S: "finite S" for i q and S :: "'store set"
  proof -
    let ?g = "\<lambda>j. if j \<in> set ?F \<and> \<sigma> (B_var i j) > 1 / 2 then (1::real) else 0"
    have "real_of_int (\<Sum>j\<in>S. dict_get ?al (i, j) 0) = (\<Sum>j\<in>S. ?g j)"
      using i by (simp add: dict_get_step1_marks) (intro sum.cong, auto)
    also have "\<dots> = (\<Sum>j\<in>S \<inter> set ?F. ?g j)"
      by (rule sum.mono_neutral_right) (use S in auto)
    also have "\<dots> \<le> (\<Sum>j\<in>set ?F. ?g j)"
      by (rule sum_mono2) auto
    also have "\<dots> \<le> (\<Sum>j\<in>set ?F. \<sigma> (B_var i j))"
    proof (rule sum_mono)
      fix j assume "j \<in> set ?F"
      then show "?g j \<le> \<sigma> (B_var i j)" using bin[OF i, of j] by auto
    qed
    also have "\<dots> \<le> sum_list (map (\<lambda>j. \<sigma> (B_var i j)) ?F)"
    proof (rule sum_set_le_sum_list)
      fix j assume "j \<in> set ?F"
      then show "0 \<le> \<sigma> (B_var i j)" using bin[OF i, of j] by auto
    qed
    also have "\<dots> \<le> real_of_int q"
      by (rule supply_constraints_holds[OF sup hold i q])
    finally have "real_of_int (\<Sum>j\<in>S. dict_get ?al (i, j) 0) \<le> real_of_int q" .
    then show ?thesis by (simp only: of_int_le_iff)
  qed
  show ?thesis
    unfolding alloc_inv_def using 3 by (auto simp: dict_get_step1_marks)
qed

lemma optimize_three_step_success:
  assumes "optimize_three_step dat ts limits df params solve rnd = Inr (summ, st)"
    and "status summ = Success"
  obtains P w2 w3 add2 add3 where
    "step1_problem dat ts df = Inr P" "fst (solve P) = 1"
    "step1_allocation st = step1_marks (SKUs dat) (stores dat) ts (snd (solve P))"
    "step2_loop (A dat) ts limits w2 (SKUs dat) (step1_allocation st, 0) =
       Inr (allocation_after_step2 st, add2)"
    "step3_loop (A dat) ts limits w3 (SKUs dat) (allocation_after_step2 st, 0) =
       Inr (allocation_after_step3 st, add3)"
    "final_allocation summ = allocation_after_step3 st"
    "total_allocated summ = sum_list (dict_values (allocation_after_step3 st))"
    "step2_additional summ = add2" "step3_additional summ = add3"
  using assms
  by (auto simp: optimize_three_step_def step1_coverage_optimization_def step1_marks_def
        step2_single_allocation_def step3_remaining_allocation_def Let_def
      split: sum.splits step1_result.splits prod.splits if_splits)

lemma pipeline_inv:
  fixes dat :: "('sku, 'store, 'color, 'size) data"
  assumes sound: "solver_sound dat ts df solve"
    and run: "optimize_three_step dat ts limits df params solve rnd = Inr (summ, st)"
    and ok: "status summ = Success"
  shows "alloc_inv (A dat) (SKUs dat) ts (step1_allocation st) \<and>
         alloc_inv (A dat) (SKUs dat) ts (allocation_after_step2 st) \<and>
         alloc_inv (A dat) (SKUs dat) ts (allocation_after_step3 st)"
proof -
  from run ok obtain P w2 w3 add2 add3 where
    P: "step1_problem dat ts df = Inr P" and st1: "fst (solve P) = 1"
    and a1: "step1_allocation st = step1_marks (SKUs dat) (stores dat) ts (snd (solve P))"
    and s2: "step2_loop (A dat) ts limits w2 (SKUs dat) (step1_allocation st, 0) =
       Inr (allocation_after_step2 st, add2)"
    and s3: "step3_loop (A dat) ts limits w3 (SKUs dat) (allocation_after_step2 st, 0) =
       Inr (allocation_after_step3 st, add3)"
    by (rule optimize_three_step_success)
  have "lp_feasible P (snd (solve P))"
    using sound P st1 by (simp add: solver_sound_def)
  then have i1: "alloc_inv (A dat) (SKUs dat) ts (step1_allocation st)"
    unfolding a1 by (rule step1_alloc_inv[OF P])
  have i2: "alloc_inv (A dat) (SKUs dat) ts (allocation_after_step2 st)"
    using step2_loop_inv[OF s2, of "SKUs dat"] i1 by blast
  have i3: "alloc_inv (A dat) (SKUs dat) ts (allocation_after_step3 st)"
    using step3_loop_inv[OF s3, of "SKUs dat"] i2 by blast
  show ?thesis using i1 i2 i3 by blast
qed

lemma optimize_three_step_failed:
  assumes "optimize_three_step dat ts limits df params solve rnd = Inr (summ, st)"
    and "status summ = Failed"
  shows "step1_allocation st = [] \<and> allocation_after_step2 st = [] \<and>
         allocation_after_step3 st = []"
proof (cases "step1_coverage_optimization dat ts df solve")
  case (Inl e)
  then show ?thesis using assms(1) by (simp add: optimize_three_step_def)
next
  case (Inr r)
  show ?thesis
  proof (cases r)
    case Step1_failed
    then show ?thesis using assms(1) Inr by (auto simp: optimize_three_step_def)
  next
    case (Step1_success alloc1 obj combos)
    then show ?thesis using assms Inr
      by (auto simp: optimize_three_step_def split: sum.splits prod.splits)
  qed
qed

lemma alloc_inv_supply:
  "alloc_inv a skus ts alloc \<Longrightarrow> i \<in> set skus \<Longrightarrow> map_of a i = Some q \<Longrightarrow> finite S \<Longrightarrow>
   (\<Sum>j\<in>S. dict_get alloc (i, j) 0) \<le> q"
  unfolding alloc_inv_def by blast

lemma pipeline_grows:
  fixes dat :: "('sku, 'store, 'color, 'size) data"
  assumes run: "optimize_three_step dat ts limits df params solve rnd = Inr (summ, st)"
  shows "grows limits (step1_allocation st) (allocation_after_step2 st) \<and>
         grows limits (allocation_after_step2 st) (allocation_after_step3 st)"
proof (cases "status summ")
  case Success
  from run Success obtain P w2 w3 add2 add3 where
    s2: "step2_loop (A dat) ts limits w2 (SKUs dat) (step1_allocation st, 0) =
       Inr (allocation_after_step2 st, add2)"
    and s3: "step3_loop (A dat) ts limits w3 (SKUs dat) (allocation_after_step2 st, 0) =
       Inr (allocation_after_step3 st, add3)"
    by (rule optimize_three_step_success)
  show ?thesis using step2_loop_inv[OF s2, of "[]"] step3_loop_inv[OF s3, of "[]"] by blast
next
  case Failed
  then show ?thesis using optimize_three_step_failed[OF run] by (simp add: grows_refl)
qed

lemma values_foldl_set1:
  "\<forall>v \<in> set (dict_values d0). v = (1::int) \<Longrightarrow>
   \<forall>v \<in> set (dict_values (foldl (\<lambda>d k. dict_set k 1 d) d0 ks)). v = 1"
proof (induction ks arbitrary: d0)
  case Nil then show ?case by simp
next
  case (Cons k ks)
  have "\<forall>v \<in> set (dict_values (dict_set k 1 d0)). v = 1"
    using Cons.prems by (induction d0) (auto simp: dict_set_def dict_values_def)
  then show ?case using Cons.IH by simp
qed

lemma values_step1_marks: "\<forall>v \<in> set (dict_values (step1_marks skus sts ts \<sigma>)). v = 1"
  unfolding step1_marks_def by (rule values_foldl_set1) (simp add: dict_values_def)

lemma pipeline_step1_binary:
  fixes dat :: "('sku, 'store, 'color, 'size) data"
  assumes run: "optimize_three_step dat ts limits df params solve rnd = Inr (summ, st)"
  shows "(\<forall>i j. dict_get (step1_allocation st) (i, j) 0 = 0 \<or>
                dict_get (step1_allocation st) (i, j) 0 = 1) \<and>
         (\<forall>v \<in> set (dict_values (step1_allocation st)). v = 1)"
proof (cases "status summ")
  case Success
  from run Success obtain P where
    m: "step1_allocation st = step1_marks (SKUs dat) (stores dat) ts (snd (solve P))"
    by (rule optimize_three_step_success)
  have "\<forall>i j. dict_get (step1_allocation st) (i, j) 0 = 0 \<or>
                dict_get (step1_allocation st) (i, j) 0 = 1"
    unfolding m by (simp add: dict_get_step1_marks)
  moreover have "\<forall>v \<in> set (dict_values (step1_allocation st)). v = 1"
    unfolding m by (rule values_step1_marks)
  ultimately show ?thesis by blast
next
  case Failed
  then have "step1_allocation st = []"
    using optimize_three_step_failed[OF run] by simp
  then show ?thesis by (simp add: dict_get_Nil dict_values_def)
qed

subsection \<open>The concrete runs\<close>

lemma ex_step1_problem: "step1_problem ex_data [0] ex_df = Inr ex_problem"
  by (simp add: step1_problem_def ex_data_def ex_df_def ex_problem_def
        add_coverage_constraints_step1_def create_binary_variables_def
        create_coverage_variables_def set_coverage_objective_def df_row_def
        store_coverage_variables_def store_coverage_constraints_def group_allocation_def)

lemma ex_feasible: "lp_feasible ex_problem ex_sigma"
  by (simp add: lp_feasible_def ex_problem_def lp_value_def)

lemma ex_sound: "solver_sound ex_data [0] ex_df ex_solver"
  by (simp add: solver_sound_def ex_step1_problem ex_solver_def ex_feasible)

lemma ex_step1: "step1_coverage_optimization ex_data [0] ex_df ex_solver =
    Inr (Step1_success [((0, 0), 1), ((1, 0), 1)] 2 2)"
  by (simp add: step1_coverage_optimization_def ex_step1_problem ex_solver_def)
     (simp add: ex_data_def selected_combinations_def step1_marks_def dict_set_def
        ex_problem_def lp_value_def)

lemma ex_priorities: "calculate_store_priorities [0::nat] [(0, 10)] 0 rnd = Inr [(0, 1)]"
  by (simp add: calculate_store_priorities_def compute_mixed_weights_def dict_get_def dict_set_def
        random_draws_def)

lemma ex_run:
  "optimize_three_step ex_data [0] ex_limits ex_df ex_params ex_solver (\<lambda>k. 0) =
   Inr (ex_summary, ex_state)"
  unfolding optimize_three_step_def ex_step1
  by (simp add: step2_single_allocation_def ex_limits_def ex_summary_def ex_state_def
        step3_remaining_allocation_def get_priority_temperature_def ex_params_def
        ex_data_def ex_priorities dict_get_def dict_set_def sort_by_weight_def dict_values_def)

lemma ex_sigma_optimal:
  "lp_feasible ex_problem \<sigma> \<Longrightarrow>
   lp_value \<sigma> (objective ex_problem) \<le> lp_value ex_sigma (objective ex_problem)"
proof -
  assume "lp_feasible ex_problem \<sigma>"
  then have "\<sigma> (Color_coverage 0) \<le> 2" and "\<sigma> (Size_coverage 0) \<le> 1"
    by (simp_all add: lp_feasible_def ex_problem_def)
  then show ?thesis by (simp add: ex_problem_def lp_value_def)
qed

lemma ex_run_one:
  "optimize_three_step ex_data [0] ex_limits_one ex_df ex_params ex_solver (\<lambda>k. 0) =
   Inr (ex_summary_marks, ex_state_marks)"
  unfolding optimize_three_step_def ex_step1
  by (simp add: step2_single_allocation_def ex_limits_one_def ex_summary_marks_def
        ex_state_marks_def
        step3_remaining_allocation_def get_priority_temperature_def ex_params_def
        ex_data_def ex_priorities dict_get_def dict_set_def sort_by_weight_def dict_values_def)

lemma ex_optimum_marks_both:
  assumes "lp_feasible ex_problem \<sigma>"
    and "lp_value \<sigma> (objective ex_problem) = lp_value ex_sigma (objective ex_problem)"
  shows "\<sigma> (B_var 0 0) = 1 \<and> \<sigma> (B_var 1 0) = 1"
proof -
  from assms(1) have f: "\<sigma> (Color_coverage 0) \<le> 2" "\<sigma> (Size_coverage 0) \<le> 1"
    "\<sigma> (Color_coverage 0) = \<sigma> (Color_bin 0 0) + \<sigma> (Color_bin 1 0)"
    "\<sigma> (B_var 0 0) = 0 \<or> \<sigma> (B_var 0 0) = 1" "\<sigma> (B_var 1 0) = 0 \<or> \<sigma> (B_var 1 0) = 1"
    "\<sigma> (Color_bin 0 0) \<le> \<sigma> (B_var 0 0)" "\<sigma> (Color_bin 1 0) \<le> \<sigma> (B_var 1 0)"
    by (simp_all add: lp_feasible_def ex_problem_def lp_value_def)
  from assms(2) have "\<sigma> (Color_coverage 0) / 2 + \<sigma> (Size_coverage 0) = 2"
    by (simp add: ex_problem_def lp_value_def)
  then have "\<sigma> (Color_coverage 0) = 2" using f(1,2) by linarith
  then show ?thesis using f(3-7) by linarith
qed

section \<open>Invariants of the allocation snapshots\<close>

text \<open>
  Claim C5. In the snapshot taken after Step 1, the quantity of every (SKU, store)
  pair is 0 or 1, and every stored entry is 1.
\<close>

theorem step1_binary:
  fixes dat :: "('sku, 'store, 'color, 'size) data"
  assumes "optimize_three_step dat ts limits df params solve rnd = Inr (summ, st)"
  shows "(dict_get (step1_allocation st) (i, j) 0 = 0 \<or>
          dict_get (step1_allocation st) (i, j) 0 = 1) \<and>
         (\<forall>v \<in> set (dict_values (step1_allocation st)). v = 1)"
  using pipeline_step1_binary[OF assms] by blast

theorem step1_binary_witness:
  "optimize_three_step ex_data [0] ex_limits ex_df ex_params ex_solver (\<lambda>k. 0) =
     Inr (ex_summary, ex_state) \<and>
   (dict_get (step1_allocation ex_state) (1, 0) 0 = 0 \<or>
    dict_get (step1_allocation ex_state) (1, 0) 0 = 1) \<and>
   set (dict_values (step1_allocation ex_state)) \<subseteq> {1}"
  using step1_binary[OF ex_run, of 1 0] ex_run by blast

text \<open>
  Claim C2. When the solver's answer satisfies the Step 1 model, then for every SKU of
  the SKU list and every finite set of stores, the quantities of that SKU over these
  stores sum to at most its supply, in the snapshots after Step 1, Step 2 and Step 3.
\<close>

theorem supply_invariant:
  fixes dat :: "('sku, 'store, 'color, 'size) data"
  assumes "solver_sound dat ts df solve"
    and "optimize_three_step dat ts limits df params solve rnd = Inr (summ, st)"
    and "status summ = Success"
    and "i \<in> set (SKUs dat)" and "map_of (A dat) i = Some q" and "finite S"
  shows "(\<Sum>j\<in>S. dict_get (step1_allocation st) (i, j) 0) \<le> q \<and>
         (\<Sum>j\<in>S. dict_get (allocation_after_step2 st) (i, j) 0) \<le> q \<and>
         (\<Sum>j\<in>S. dict_get (allocation_after_step3 st) (i, j) 0) \<le> q"
  using pipeline_inv[OF assms(1-3)] alloc_inv_supply[OF _ assms(4-6)] by blast

theorem supply_invariant_witness:
  "solver_sound ex_data [0] ex_df ex_solver \<and>
   optimize_three_step ex_data [0] ex_limits ex_df ex_params ex_solver (\<lambda>k. 0) =
     Inr (ex_summary, ex_state) \<and>
   status ex_summary = Success \<and> (0::nat) \<in> set (SKUs ex_data) \<and>
   map_of (A ex_data) 0 = Some 5 \<and> finite {0::nat} \<and>
   (\<Sum>j\<in>{0::nat}. dict_get (step1_allocation ex_state) (0, j) 0) \<le> 5 \<and>
   (\<Sum>j\<in>{0::nat}. dict_get (allocation_after_step2 ex_state) (0, j) 0) \<le> 5 \<and>
   (\<Sum>j\<in>{0::nat}. dict_get (allocation_after_step3 ex_state) (0, j) 0) \<le> 5"
proof -
  have s: "status ex_summary = Success" by (simp add: ex_summary_def)
  have i: "(0::nat) \<in> set (SKUs ex_data)" by (simp add: ex_data_def)
  have q: "map_of (A ex_data) 0 = Some 5" by (simp add: ex_data_def)
  have f: "finite {0::nat}" by simp
  show ?thesis
    using supply_invariant[OF ex_sound ex_run s i q f] ex_sound ex_run s i q f by blast
qed

subsection \<open>The limits built from the tier table\<close>

text \<open>
  \<open>main.py\<close> builds the limits it passes to the optimizer with
  \<open>create_store_allocation_limits(target_stores)\<close> over \<open>TIER_CONFIG\<close>. With that table the
  construction never fails, every target store gets a limit of at least 1 (the table
  holds 3, 2 and 1), and no other store has an entry.
\<close>

lemma tier_config_limit:
  "(get_store_tier TIER_CONFIG i n :: 'store py_error + tier_name) = Inr tier \<Longrightarrow>
   \<exists>info. map_of TIER_CONFIG tier = Some info \<and> 1 \<le> max_sku_limit info"
  by (cases tier) (simp_all add: TIER_CONFIG_def)

lemma get_store_tier_tier_config:
  "\<exists>tier. (get_store_tier TIER_CONFIG i n :: 'store py_error + tier_name) = Inr tier"
  by (simp add: get_store_tier_def TIER_CONFIG_def Let_def)

lemma allocation_limits_loop_total:
  "\<exists>limits. allocation_limits_loop TIER_CONFIG n zs (acc :: ('store, int) dict) = Inr limits"
proof (induction zs arbitrary: acc)
  case Nil
  then show ?case by simp
next
  case (Cons z zs)
  obtain i sid where z: "z = (i, sid)" by (cases z)
  obtain tier where
    t: "(get_store_tier TIER_CONFIG i n :: 'store py_error + tier_name) = Inr tier"
    using get_store_tier_tier_config by blast
  from tier_config_limit[OF t] obtain info where info: "map_of TIER_CONFIG tier = Some info"
    by blast
  from Cons.IH[of "dict_set sid (max_sku_limit info) acc"] show ?case
    unfolding z by (simp add: t info)
qed

lemma create_store_allocation_limits_total:
  "\<exists>limits. create_store_allocation_limits TIER_CONFIG (ts :: 'store list) = Inr limits"
  unfolding create_store_allocation_limits_def by (rule allocation_limits_loop_total)

lemma allocation_limits_loop_tier_config:
  "allocation_limits_loop TIER_CONFIG n zs acc = Inr limits \<Longrightarrow>
   (\<forall>j v. map_of acc j = Some v \<longrightarrow> 1 \<le> v) \<Longrightarrow>
   (\<forall>j v. map_of limits j = Some v \<longrightarrow> 1 \<le> v) \<and>
   dom (map_of limits) = dom (map_of acc) \<union> snd ` set zs"
proof (induction zs arbitrary: acc)
  case Nil
  then show ?case by simp
next
  case (Cons z zs)
  obtain i sid where z: "z = (i, sid)" by (cases z)
  from Cons.prems(1) obtain tier info where
    t: "(get_store_tier TIER_CONFIG i n :: 'a py_error + tier_name) = Inr tier"
    and info: "map_of TIER_CONFIG tier = Some info"
    and rest: "allocation_limits_loop TIER_CONFIG n zs (dict_set sid (max_sku_limit info) acc)
                 = Inr limits"
    unfolding z by (auto split: sum.splits option.splits)
  from tier_config_limit[OF t] info have ge: "1 \<le> max_sku_limit info" by simp
  have acc': "\<forall>j v. map_of (dict_set sid (max_sku_limit info) acc) j = Some v \<longrightarrow> 1 \<le> v"
    using Cons.prems(2) ge by (auto simp: map_of_dict_set)
  from Cons.IH[OF rest acc'] show ?case
    unfolding z by (auto simp: map_of_dict_set)
qed

lemma create_store_allocation_limits_tier_config:
  assumes "create_store_allocation_limits TIER_CONFIG ts = Inr limits"
  shows "(j \<in> set ts \<longrightarrow> 1 \<le> dict_get limits j 0) \<and>
         (j \<notin> set ts \<longrightarrow> dict_get limits j 0 = 0)"
proof -
  have z: "snd ` set (zip [0 ..< length ts] ts) = set ts"
    by (metis length_upt map_snd_zip minus_nat.diff_0 set_map)
  from allocation_limits_loop_tier_config[OF assms[unfolded create_store_allocation_limits_def]]
  have v: "\<And>j v. map_of limits j = Some v \<Longrightarrow> 1 \<le> v"
    and d: "dom (map_of limits) = set ts"
    unfolding z by auto
  show ?thesis
  proof (cases "j \<in> set ts")
    case True
    then obtain x where "map_of limits j = Some x" using d by auto
    then show ?thesis using v True by (simp add: dict_get_def)
  next
    case False
    then have "map_of limits j = None" using d by auto
    then show ?thesis using False by (simp add: dict_get_def)
  qed
qed

lemma ex_limits_built: "create_store_allocation_limits TIER_CONFIG [0::nat] = Inr ex_limits"
  by (simp add: create_store_allocation_limits_def get_store_tier_def TIER_CONFIG_def
        dict_set_def ex_limits_def)

text \<open>
  Step 1 only marks target stores, and marks a pair with 1; Steps 2 and 3 raise an entry
  only while it is below the store's limit.
\<close>

lemma pipeline_step1_support:
  fixes dat :: "('sku, 'store, 'color, 'size) data"
  assumes run: "optimize_three_step dat ts limits df params solve rnd = Inr (summ, st)"
    and j: "j \<notin> set ts"
  shows "dict_get (step1_allocation st) (i, j) 0 = 0"
proof (cases "status summ")
  case Success
  from run Success obtain P where
    m: "step1_allocation st = step1_marks (SKUs dat) (stores dat) ts (snd (solve P))"
    by (rule optimize_three_step_success)
  show ?thesis unfolding m using j by (simp add: dict_get_step1_marks)
next
  case Failed
  then have "step1_allocation st = []"
    using optimize_three_step_failed[OF run] by simp
  then show ?thesis by (simp add: dict_get_Nil)
qed

lemma snapshots_le_max_limit:
  fixes dat :: "('sku, 'store, 'color, 'size) data"
  assumes run: "optimize_three_step dat ts limits df params solve rnd = Inr (summ, st)"
  shows "dict_get (step1_allocation st) (i, j) 0 \<le> 1 \<and>
         dict_get (allocation_after_step2 st) (i, j) 0
           \<le> max (dict_get (step1_allocation st) (i, j) 0) (dict_get limits j 0) \<and>
         dict_get (allocation_after_step3 st) (i, j) 0
           \<le> max (dict_get (allocation_after_step2 st) (i, j) 0) (dict_get limits j 0)"
proof -
  have "dict_get (step1_allocation st) (i, j) 0 = 0 \<or>
        dict_get (step1_allocation st) (i, j) 0 = 1"
    using pipeline_step1_binary[OF run] by blast
  then have 1: "dict_get (step1_allocation st) (i, j) 0 \<le> 1" by linarith
  from pipeline_grows[OF run]
  have 2: "dict_get (allocation_after_step2 st) (i, j) 0 \<le>
             max (dict_get (step1_allocation st) (i, j) 0) (dict_get limits j 0)"
    and 3: "dict_get (allocation_after_step3 st) (i, j) 0 \<le>
             max (dict_get (allocation_after_step2 st) (i, j) 0) (dict_get limits j 0)"
    unfolding grows_def by blast+
  show ?thesis using 1 2 3 by linarith
qed

text \<open>
  Claim C3. The limits are the ones the program builds for its target stores from the
  tier table, \<open>create_store_allocation_limits(target_stores)\<close>, and the capacity of a store
  is \<open>store_allocation_limits.get(store, 0)\<close>. Then for every (SKU, store) pair, in the
  snapshots after Step 1, after Step 2 and after Step 3, the allocated quantity is at most
  the store's capacity. A store outside the target stores has capacity 0 and is never
  allocated anything.
\<close>

theorem tier_cap_invariant:
  fixes dat :: "('sku, 'store, 'color, 'size) data"
  assumes limits: "create_store_allocation_limits TIER_CONFIG ts = Inr limits"
    and run: "optimize_three_step dat ts limits df params solve rnd = Inr (summ, st)"
  shows "dict_get (step1_allocation st) (i, j) 0 \<le> dict_get limits j 0 \<and>
         dict_get (allocation_after_step2 st) (i, j) 0 \<le> dict_get limits j 0 \<and>
         dict_get (allocation_after_step3 st) (i, j) 0 \<le> dict_get limits j 0"
proof (cases "j \<in> set ts")
  case True
  then have "1 \<le> dict_get limits j 0"
    using create_store_allocation_limits_tier_config[OF limits, of j] by simp
  then show ?thesis using snapshots_le_max_limit[OF run, of i j] by linarith
next
  case False
  then have "dict_get limits j 0 = 0"
    using create_store_allocation_limits_tier_config[OF limits, of j] by simp
  moreover have "dict_get (step1_allocation st) (i, j) 0 = 0"
    using pipeline_step1_support[OF run False] .
  ultimately show ?thesis using snapshots_le_max_limit[OF run, of i j] by linarith
qed

theorem tier_cap_invariant_witness:
  "create_store_allocation_limits TIER_CONFIG [0::nat] = Inr ex_limits \<and>
   optimize_three_step ex_data [0] ex_limits ex_df ex_params ex_solver (\<lambda>k. 0) =
     Inr (ex_summary, ex_state) \<and>
   dict_get (step1_allocation ex_state) (0, 0) 0 \<le> dict_get ex_limits 0 0 \<and>
   dict_get (allocation_after_step2 ex_state) (0, 0) 0 \<le> dict_get ex_limits 0 0 \<and>
   dict_get (allocation_after_step3 ex_state) (0, 0) 0 \<le> dict_get ex_limits 0 0 \<and>
   dict_get (allocation_after_step3 ex_state) (0, 0) 0 = 3 \<and>
   dict_get ex_limits 0 0 = 3"
proof -
  have v: "dict_get (allocation_after_step3 ex_state) (0, 0) 0 = 3 \<and>
           dict_get ex_limits (0::nat) 0 = 3"
    by (simp add: ex_state_def ex_limits_def dict_get_def)
  from tier_cap_invariant[OF ex_limits_built ex_run, of 0 0]
  show ?thesis using ex_limits_built ex_run v by blast
qed

text \<open>
  Claim C4. Step 2 and Step 3 keep every entry of the allocation and never lower it,
  and the total allocated quantity does not decrease from Step 1 to Step 2 to Step 3.
\<close>

theorem stages_monotone:
  fixes dat :: "('sku, 'store, 'color, 'size) data"
  assumes run: "optimize_three_step dat ts limits df params solve rnd = Inr (summ, st)"
  shows "(\<forall>k v. map_of (step1_allocation st) k = Some v \<longrightarrow>
            (\<exists>v'. map_of (allocation_after_step2 st) k = Some v' \<and> v \<le> v')) \<and>
         (\<forall>k v. map_of (allocation_after_step2 st) k = Some v \<longrightarrow>
            (\<exists>v'. map_of (allocation_after_step3 st) k = Some v' \<and> v \<le> v')) \<and>
         sum_list (dict_values (step1_allocation st))
           \<le> sum_list (dict_values (allocation_after_step2 st)) \<and>
         sum_list (dict_values (allocation_after_step2 st))
           \<le> sum_list (dict_values (allocation_after_step3 st))"
proof -
  have entry: "\<exists>v'. map_of a2 k = Some v' \<and> v \<le> v'"
    if g: "grows limits a1 a2" and k: "map_of a1 k = Some v"
    for a1 a2 :: "('sku \<times> 'store, int) dict" and k v
  proof -
    from g have le: "dict_get a1 k 0 \<le> dict_get a2 k 0"
      and d: "k \<in> dom (map_of a1) \<Longrightarrow> k \<in> dom (map_of a2)"
      unfolding grows_def by blast+
    from d k obtain v' where v': "map_of a2 k = Some v'" by auto
    then show ?thesis using le k by (simp add: dict_get_def)
  qed
  from pipeline_grows[OF run]
  have g12: "grows limits (step1_allocation st) (allocation_after_step2 st)"
    and g23: "grows limits (allocation_after_step2 st) (allocation_after_step3 st)"
    by blast+
  have "sum_list (dict_values (step1_allocation st))
          \<le> sum_list (dict_values (allocation_after_step2 st))"
    using g12 unfolding grows_def by blast
  moreover have "sum_list (dict_values (allocation_after_step2 st))
          \<le> sum_list (dict_values (allocation_after_step3 st))"
    using g23 unfolding grows_def by blast
  ultimately show ?thesis using entry[OF g12] entry[OF g23] by blast
qed

theorem stages_monotone_witness:
  "optimize_three_step ex_data [0] ex_limits ex_df ex_params ex_solver (\<lambda>k. 0) =
     Inr (ex_summary, ex_state) \<and>
   map_of (step1_allocation ex_state) (0, 0) = Some 1 \<and>
   map_of (allocation_after_step2 ex_state) (0, 0) = Some 1 \<and>
   map_of (allocation_after_step3 ex_state) (0, 0) = Some 3 \<and>
   sum_list (dict_values (step1_allocation ex_state))
     \<le> sum_list (dict_values (allocation_after_step2 ex_state)) \<and>
   sum_list (dict_values (allocation_after_step2 ex_state))
     \<le> sum_list (dict_values (allocation_after_step3 ex_state))"
proof -
  have "map_of (step1_allocation ex_state) (0, 0) = Some 1"
    "map_of (allocation_after_step2 ex_state) (0, 0) = Some 1"
    "map_of (allocation_after_step3 ex_state) (0, 0) = Some 3"
    by (simp_all add: ex_state_def)
  then show ?thesis using stages_monotone[OF ex_run] ex_run by blast
qed

section \<open>Store priorities: clamping and the temperature 0\<close>

lemma dict_get_foldl_set:
  "dict_get (foldl (\<lambda>d j. dict_set j (f j) d) d0 ts) j x =
     (if j \<in> set ts then f j else dict_get d0 j x)"
  by (induction ts arbitrary: d0) (auto simp: dict_get_set)

lemma fold_min_Min: "fold min qs (q::real) = Min (set (q # qs))"
  by (simp only: Min.set_eq_fold)

lemma fold_max_Max: "fold max qs (q::real) = Max (set (q # qs))"
  by (simp only: Max.set_eq_fold)

lemma compute_mixed_weights_error:
  "isl (compute_mixed_weights ts qsum alpha rnd) \<longleftrightarrow>
     (ts = [] \<or> (\<exists>j \<in> set ts. map_of qsum j = None))"
  by (cases ts) (auto simp: compute_mixed_weights_def Let_def)

lemma compute_mixed_weights_zero:
  "compute_mixed_weights ts qsum 0 rnd = compute_mixed_weights ts qsum 0 rnd'"
  by (cases ts) (simp_all add: compute_mixed_weights_def Let_def)

lemma compute_mixed_weights_zero_score:
  assumes "compute_mixed_weights ts qsum 0 rnd = Inr s" and "j \<in> set ts"
  shows "dict_get s j 0 = minmax_normalized ts qsum j"
proof -
  from assms(1) obtain t ts' where ts: "ts = t # ts'"
    by (cases ts) (auto simp: compute_mixed_weights_def split: if_splits)
  define g where "g = (\<lambda>s. dict_get qsum s 0)"
  define lo where "lo = fold min (map g ts') (g t)"
  define hi where "hi = fold max (map g ts') (g t)"
  have lo: "lo = Min (g ` set ts)" unfolding lo_def ts fold_min_Min by simp
  have hi: "hi = Max (g ` set ts)" unfolding hi_def ts fold_max_Max by simp
  have "lo \<le> hi" unfolding lo hi by (rule Min.coboundedI[THEN order_trans, OF _ _ Max_ge]) (use ts in auto)
  then have cond: "(hi > lo) = (lo \<noteq> hi)" by auto
  have s: "s = foldl (\<lambda>d j. dict_set j (if hi > lo then (g j - lo) / (hi - lo) else 1) d) [] ts"
    using assms(1) unfolding ts
    by (simp add: compute_mixed_weights_def Let_def g_def lo_def hi_def split: if_splits)
  have mm: "minmax_normalized ts qsum j = (if lo = hi then 1 else (g j - lo) / (hi - lo))"
    by (simp add: minmax_normalized_def Let_def lo hi g_def)
  show ?thesis
    unfolding s mm using assms(2) cond by (simp add: dict_get_foldl_set)
qed

lemma step2_raises_on_empty:
  "step2_single_allocation dat [] limits alloc params rnd = Inl ValueError_empty_sequence"
  by (simp add: step2_single_allocation_def calculate_store_priorities_def
        compute_mixed_weights_def)

lemma empty_target_stores_never_success:
  assumes "optimize_three_step dat [] limits df params solve rnd = Inr (summ, st)"
  shows "status summ = Failed"
proof (cases "step1_coverage_optimization dat [] df solve")
  case (Inl e)
  then show ?thesis using assms by (simp add: optimize_three_step_def)
next
  case (Inr r)
  then show ?thesis using assms
    by (cases r) (auto simp: optimize_three_step_def step2_raises_on_empty)
qed

lemma empty_skus_success:
  assumes "SKUs dat = []" and "calculate_store_priorities ts (QSUM dat) (get_priority_temperature params) rnd = Inr w"
    and "calculate_store_priorities ts (QSUM dat) (get_priority_temperature params) (\<lambda>k. rnd (k + length ts)) = Inr w'"
    and "step1_problem dat ts df = Inr P" and "fst (solve P) = 1"
  shows "\<exists>summ st. optimize_three_step dat ts limits df params solve rnd = Inr (summ, st) \<and>
           status summ = Success \<and> final_allocation summ = []"
  using assms
  by (auto simp: optimize_three_step_def step1_coverage_optimization_def step1_marks_def
        selected_combinations_def step2_single_allocation_def step3_remaining_allocation_def
        split: prod.splits)

lemma ex2_priorities: "calculate_store_priorities [0::int, 1] [(0, 20), (1, 10)] 0 rnd = Inr [(0, 1), (1, 0)]"
  by (simp add: calculate_store_priorities_def compute_mixed_weights_def dict_get_def dict_set_def
        random_draws_def)

lemma ex2_step1: "step1_coverage_optimization ex2_data [0, 1] ex2_df ex2_solver =
    Inr (Step1_success [((0, 0), 1), ((0, 1), 1), ((1, 1), 1)] (7 / 2) 3)"
  by (simp add: step1_coverage_optimization_def step1_problem_def ex2_data_def ex2_solver_def
          add_coverage_constraints_step1_def selected_combinations_def step1_marks_def
          set_coverage_objective_def lp_value_def df_row_def ex2_df_def dict_set_def Let_def
          split: prod.splits)

lemma ex2_run:
  "optimize_three_step ex2_data [0, 1] ex2_limits ex2_df (scenario 0) ex2_solver (\<lambda>k. 0) =
   Inr (ex2_summary, ex2_state)"
  unfolding optimize_three_step_def ex2_step1
  by (simp add: step2_single_allocation_def ex2_limits_def ex2_summary_def ex2_state_def
        step3_remaining_allocation_def get_priority_temperature_def scenario_def
        ex2_data_def ex2_priorities dict_get_def dict_set_def sort_by_weight_def dict_values_def)

lemma ex2_run_random:
  "optimize_three_step ex2_data [0, 1] ex2_limits ex2_df (scenario 1) ex2_solver
     (\<lambda>k. if k = 3 then 1 else 0) =
   Inr (ex2_summary \<lparr> final_allocation := [((0, 0), 1), ((0, 1), 2), ((1, 1), 1)] \<rparr>,
        ex2_state \<lparr> allocation_after_step3 := [((0, 0), 1), ((0, 1), 2), ((1, 1), 1)] \<rparr>)"
  unfolding optimize_three_step_def ex2_step1
  by (simp add: step2_single_allocation_def ex2_limits_def ex2_summary_def ex2_state_def
        step3_remaining_allocation_def get_priority_temperature_def scenario_def
        ex2_data_def calculate_store_priorities_def compute_mixed_weights_def random_draws_def
        dict_get_def dict_set_def sort_by_weight_def dict_values_def)

text \<open>
  Claim C7, at an input where the code departs from it. With no store at all, and so an
  empty list of target stores, the pipeline does not return: Step 2 computes the store
  priorities first, and \<open>min\<close> of the empty list of volumes raises
  \<open>ValueError\<close>.
\<close>

theorem empty_target_stores_raise:
  "optimize_three_step ex_data_no_stores [] [] ex_df ex_params ex_solver (\<lambda>k. 0) =
     Inl ValueError_empty_sequence"
proof -
  have "step1_coverage_optimization ex_data_no_stores [] ex_df ex_solver =
          Inr (Step1_success [] 0 0)"
    by (simp add: step1_coverage_optimization_def step1_problem_def ex_data_no_stores_def
          ex_data_def ex_solver_def add_coverage_constraints_step1_def
          selected_combinations_def step1_marks_def set_coverage_objective_def lp_value_def
          df_row_def ex_df_def split: prod.splits)
  then show ?thesis
    by (simp add: optimize_three_step_def step2_raises_on_empty)
qed

text \<open>
  Claim C8. With a priority temperature of 0 the result of the pipeline, and the store
  scores, do not depend on the random draws, and the score of every target store is its
  min-max normalised volume. The solver is a function of the model it is given.
\<close>

theorem deterministic_at_temperature_zero:
  fixes dat :: "('sku, 'store, 'color, 'size) data"
  assumes "get_priority_temperature params = 0"
  shows "optimize_three_step dat ts limits df params solve rnd =
           optimize_three_step dat ts limits df params solve rnd' \<and>
         calculate_store_priorities ts (QSUM dat) (get_priority_temperature params) rnd =
           calculate_store_priorities ts (QSUM dat) (get_priority_temperature params) rnd' \<and>
         (\<forall>s j. calculate_store_priorities ts (QSUM dat) (get_priority_temperature params) rnd
                   = Inr s \<longrightarrow> j \<in> set ts \<longrightarrow>
                dict_get s j 0 = minmax_normalized ts (QSUM dat) j)"
proof -
  have c: "calculate_store_priorities ts (QSUM dat) 0 r = compute_mixed_weights ts (QSUM dat) 0 r"
    for r by (simp add: calculate_store_priorities_def)
  have eq: "calculate_store_priorities ts (QSUM dat) 0 r = calculate_store_priorities ts (QSUM dat) 0 r'"
    for r r' unfolding c by (rule compute_mixed_weights_zero)
  have s2: "step2_single_allocation dat ts limits a params r =
            step2_single_allocation dat ts limits a params r'" for a r r'
    unfolding step2_single_allocation_def assms eq[of r r'] ..
  have s3: "step3_remaining_allocation dat ts limits a params r =
            step3_remaining_allocation dat ts limits a params r'" for a r r'
    unfolding step3_remaining_allocation_def assms eq[of r r'] ..
  have "optimize_three_step dat ts limits df params solve rnd =
           optimize_three_step dat ts limits df params solve rnd'"
    unfolding optimize_three_step_def
      s2[of _ rnd rnd'] s3[of _ "\<lambda>k. rnd (k + length ts)" "\<lambda>k. rnd' (k + length ts)"] ..
  moreover have "\<forall>s j. calculate_store_priorities ts (QSUM dat) 0 rnd = Inr s \<longrightarrow> j \<in> set ts \<longrightarrow>
                dict_get s j 0 = minmax_normalized ts (QSUM dat) j"
    unfolding c by (intro allI impI) (rule compute_mixed_weights_zero_score)
  ultimately show ?thesis unfolding assms using eq by blast
qed

theorem deterministic_at_temperature_zero_witness:
  "get_priority_temperature (scenario 0) = 0 \<and>
   optimize_three_step ex2_data [0, 1] ex2_limits ex2_df (scenario 0) ex2_solver (\<lambda>k. 0) =
     optimize_three_step ex2_data [0, 1] ex2_limits ex2_df (scenario 0) ex2_solver
       (\<lambda>k. if k = 3 then 1 else 0) \<and>
   dict_get [(0::int, 1::real), (1, 0)] 1 0 = minmax_normalized [0, 1] (QSUM ex2_data) 1"
proof -
  have t: "get_priority_temperature (scenario 0) = 0"
    by (simp add: get_priority_temperature_def scenario_def)
  have q: "QSUM ex2_data = [(0, 20), (1, 10)]" by (simp add: ex2_data_def)
  have c: "calculate_store_priorities [0, 1] (QSUM ex2_data)
             (get_priority_temperature (scenario 0)) (\<lambda>k. 0) = Inr [(0, 1), (1, 0)]"
    unfolding t q by (rule ex2_priorities)
  have m: "(1::int) \<in> set [0, 1]" by simp
  from deterministic_at_temperature_zero[OF t, of ex2_data "[0, 1]" ex2_limits ex2_df
      ex2_solver "\<lambda>k. 0" "\<lambda>k. if k = 3 then 1 else 0"]
  show ?thesis using t c m by blast
qed

text \<open>
  Claim C10. For every temperature the priorities are those of the temperature clamped
  to \<open>[0, 1]\<close>, the pipeline behaves as with the clamped temperature, and whether the
  priority computation raises depends on the target stores and their volumes only.
\<close>

theorem temperature_clamped:
  fixes dat :: "('sku, 'store, 'color, 'size) data"
  shows "calculate_store_priorities ts qsum t rnd =
           compute_mixed_weights ts qsum (max 0 (min 1 t)) rnd \<and>
         calculate_store_priorities ts qsum t rnd =
           calculate_store_priorities ts qsum (max 0 (min 1 t)) rnd \<and>
         (isl (calculate_store_priorities ts qsum t rnd) \<longleftrightarrow>
            ts = [] \<or> (\<exists>j \<in> set ts. map_of qsum j = None)) \<and>
         optimize_three_step dat ts limits df (scenario t) solve rnd =
           optimize_three_step dat ts limits df (scenario (max 0 (min 1 t))) solve rnd"
proof -
  have 1: "calculate_store_priorities ts qsum t rnd =
           compute_mixed_weights ts qsum (max 0 (min 1 t)) rnd"
    by (simp add: calculate_store_priorities_def)
  have 2: "calculate_store_priorities ts q (max 0 (min 1 t)) r = calculate_store_priorities ts q t r"
    for q r by (simp add: calculate_store_priorities_def)
  have 3: "isl (calculate_store_priorities ts qsum t rnd) \<longleftrightarrow>
            ts = [] \<or> (\<exists>j \<in> set ts. map_of qsum j = None)"
    unfolding 1 by (rule compute_mixed_weights_error)
  have 4: "optimize_three_step dat ts limits df (scenario t) solve rnd =
           optimize_three_step dat ts limits df (scenario (max 0 (min 1 t))) solve rnd"
  proof -
    have s2: "step2_single_allocation dat ts limits a (scenario t) r =
              step2_single_allocation dat ts limits a (scenario (max 0 (min 1 t))) r" for a r
      by (simp add: step2_single_allocation_def get_priority_temperature_def scenario_def 2)
    have s3: "step3_remaining_allocation dat ts limits a (scenario t) r =
              step3_remaining_allocation dat ts limits a (scenario (max 0 (min 1 t))) r" for a r
      by (simp add: step3_remaining_allocation_def get_priority_temperature_def scenario_def 2)
    show ?thesis unfolding optimize_three_step_def s2 s3 ..
  qed
  show ?thesis using 1 2 3 4 by simp
qed

theorem temperature_clamped_witness:
  "calculate_store_priorities [0::int, 1] (QSUM ex2_data) 5 (\<lambda>k. 1 / 2) =
     calculate_store_priorities [0, 1] (QSUM ex2_data) 1 (\<lambda>k. 1 / 2) \<and>
   \<not> isl (calculate_store_priorities [0::int, 1] (QSUM ex2_data) 5 (\<lambda>k. 1 / 2)) \<and>
   optimize_three_step ex2_data [0, 1] ex2_limits ex2_df (scenario 5) ex2_solver
       (\<lambda>k. 1 / 2) =
     optimize_three_step ex2_data [0, 1] ex2_limits ex2_df (scenario 1) ex2_solver
       (\<lambda>k. 1 / 2)"
proof -
  have c: "max 0 (min 1 (5::real)) = 1" by simp
  have n: "\<not> ([0::int, 1] = [] \<or> (\<exists>j \<in> set [0::int, 1]. map_of (QSUM ex2_data) j = None))"
    by (simp add: ex2_data_def)
  from temperature_clamped[where ts = "[0::int, 1]" and qsum = "QSUM ex2_data" and t = 5
      and rnd = "\<lambda>k. 1 / 2" and dat = ex2_data and limits = ex2_limits and df = ex2_df
      and solve = ex2_solver]
  show ?thesis unfolding c using n by blast
qed

section \<open>The scarcity classification\<close>

lemma related_loop_result:
  "(related_loop df s c z rs ext :: 'e py_error + 'sku set) = Inr ext' \<Longrightarrow>
   ext' = ext \<union> {r \<in> set rs. r \<noteq> s \<and> (\<exists>row. df_row df r = Some row \<and> shares_one c z row)} \<and>
   (\<forall>r \<in> set rs. r \<noteq> s \<longrightarrow> df_row df r \<noteq> None)"
proof (induction rs arbitrary: ext)
  case Nil
  then show ?case by simp
next
  case (Cons r rs)
  show ?case
  proof (cases "r \<noteq> s")
    case False
    then have "(related_loop df s c z rs ext :: 'e py_error + 'sku set) = Inr ext'"
      using Cons.prems by simp
    from Cons.IH[OF this] False show ?thesis by auto
  next
    case True
    then obtain row where row: "df_row df r = Some row"
      and rest: "(related_loop df s c z rs
                   (if shares_one c z row then insert r ext else ext) :: 'e py_error + 'sku set)
                 = Inr ext'"
      using Cons.prems by (auto split: option.splits)
    from Cons.IH[OF rest] row True show ?thesis by auto
  qed
qed

lemma scarce_loop_result:
  "(scarce_loop df skus ss ext :: 'e py_error + 'sku set) = Inr ext' \<Longrightarrow>
   ext' = ext \<union> {r \<in> set skus. \<exists>s \<in> set ss. related df s r}"
proof (induction ss arbitrary: ext)
  case Nil
  then show ?case by simp
next
  case (Cons s ss)
  from Cons.prems obtain row ext1 where row: "df_row df s = Some row"
    and inner: "(related_loop df s (COLOR_CD row) (SIZE_CD row) skus ext
                   :: 'e py_error + 'sku set) = Inr ext1"
    and rest: "(scarce_loop df skus ss ext1 :: 'e py_error + 'sku set) = Inr ext'"
    by (auto split: option.splits sum.splits)
  from related_loop_result[OF inner]
  have e1: "ext1 = ext \<union> {r \<in> set skus. r \<noteq> s \<and>
              (\<exists>rr. df_row df r = Some rr \<and> shares_one (COLOR_CD row) (SIZE_CD row) rr)}"
    by blast
  have rel: "related df s r \<longleftrightarrow>
        r \<noteq> s \<and> (\<exists>rr. df_row df r = Some rr \<and> shares_one (COLOR_CD row) (SIZE_CD row) rr)" for r
    using row by (auto simp: related_def shares_one_def split: option.splits)
  have "ext1 = ext \<union> {r \<in> set skus. related df s r}"
    unfolding e1 using rel by blast
  then show ?case using Cons.IH[OF rest] by auto
qed

lemma cx_classify: "classify_skus cx_df cx_A cx_stores = Inr ({0, 1}, [2])"
  by (simp add: classify_skus_def basic_scarce_def cx_df_def cx_A_def cx_stores_def df_row_def
        shares_one_def insert_commute)

lemma cx_closure: "2 \<in> scarce_closure cx_df cx_A cx_stores"
proof -
  have 0: "0 \<in> scarce_closure cx_df cx_A cx_stores"
    by (rule scarce_closure.basic) (simp add: basic_scarce_def cx_A_def cx_stores_def)
  have 1: "1 \<in> scarce_closure cx_df cx_A cx_stores"
    by (rule scarce_closure.step[OF 0])
       (simp_all add: cx_A_def related_def cx_df_def df_row_def shares_one_def)
  show ?thesis
    by (rule scarce_closure.step[OF 1])
       (simp_all add: cx_A_def related_def cx_df_def df_row_def shares_one_def)
qed

lemma spec_classify: "classify_skus spec_df cx_A cx_stores = Inr ({0, 1, 2}, [])"
  by (simp add: classify_skus_def basic_scarce_def spec_df_def cx_A_def cx_stores_def df_row_def
        shares_one_def insert_commute)

lemma classify_skus_result:
  assumes "classify_skus df a target_stores = Inr (scarce, abundant)"
  shows "scarce = set (basic_scarce a target_stores) \<union>
           {r \<in> fst ` set a. \<exists>s \<in> set (basic_scarce a target_stores). related df s r} \<and>
         abundant = filter (\<lambda>sku. sku \<notin> scarce) (map fst a)"
  using assms scarce_loop_result[of df "map fst a" "basic_scarce a target_stores"
      "set (basic_scarce a target_stores)"]
  by (auto simp: classify_skus_def Let_def split: sum.splits)

lemma classify_skus_subset_closure:
  assumes "classify_skus df a target_stores = Inr (scarce, abundant)"
  shows "scarce \<subseteq> scarce_closure df a target_stores"
proof
  fix r assume "r \<in> scarce"
  then consider "r \<in> set (basic_scarce a target_stores)"
    | s where "s \<in> set (basic_scarce a target_stores)" "r \<in> fst ` set a" "related df s r"
    using classify_skus_result[OF assms] by blast
  then show "r \<in> scarce_closure df a target_stores"
  proof cases
    case 1
    then show ?thesis by (rule scarce_closure.basic)
  next
    case 2
    from scarce_closure.basic[OF 2(1)] 2(2,3) show ?thesis by (rule scarce_closure.step)
  qed
qed

text \<open>
  Claim C6 as stated fails: with SKUs red-small (supply 2), red-medium and blue-medium
  (supply 50) and ten target stores, blue-medium belongs to the closure, through
  red-medium, and the classifier returns it as abundant.
\<close>

theorem scarce_closure_counterexample:
  "classify_skus cx_df cx_A cx_stores = Inr ({0, 1}, [2]) \<and>
   2 \<in> scarce_closure cx_df cx_A cx_stores \<and>
   (2::nat) \<notin> {0, 1}"
  using cx_classify cx_closure by simp

text \<open>
  Claim C6, as the code has it. The scarce set is the basic scarce SKUs together with
  the SKUs of \<open>A\<close> that are related to a basic scarce SKU, in one step and not
  transitively; the abundant SKUs are the SKUs of \<open>A\<close> outside it, in order.
\<close>

theorem classify_skus_one_step:
  assumes "classify_skus df a target_stores = Inr (scarce, abundant)"
  shows "scarce = set (basic_scarce a target_stores) \<union>
           {r \<in> fst ` set a. \<exists>s \<in> set (basic_scarce a target_stores). related df s r} \<and>
         abundant = filter (\<lambda>sku. sku \<notin> scarce) (map fst a)"
  using assms by (rule classify_skus_result)

theorem classify_skus_one_step_witness:
  "classify_skus spec_df cx_A cx_stores = Inr ({0, 1, 2}, []) \<and>
   {0, 1, 2} = set (basic_scarce cx_A cx_stores) \<union>
     {r \<in> fst ` set cx_A. \<exists>s \<in> set (basic_scarce cx_A cx_stores). related spec_df s r} \<and>
   [] = filter (\<lambda>sku. sku \<notin> {0, 1, 2}) (map fst cx_A)"
  using classify_skus_one_step[OF spec_classify] spec_classify by blast

section \<open>Tier look-ups of unknown stores\<close>

lemma list_index_None: "list_index xs x = None \<longleftrightarrow> x \<notin> set xs"
  by (induction xs) (auto split: option.splits)

lemma get_store_tier_not_store_error:
  "(get_store_tier cfg i n :: 'store py_error + tier_name) \<noteq> Inl (ValueError_store_not_found s)"
  by (auto simp: get_store_tier_def Let_def split: option.splits)

lemma get_store_tier_info_unknown:
  "get_store_tier_info cfg sid sts = Inl (ValueError_store_not_found s) \<longleftrightarrow>
     sid \<notin> set sts \<and> s = sid"
proof (cases "list_index sts sid")
  case None
  then show ?thesis by (auto simp: get_store_tier_info_def list_index_None[symmetric])
next
  case (Some i)
  then have "sid \<in> set sts" using list_index_None[of sts sid] by auto
  moreover have "get_store_tier_info cfg sid sts \<noteq> Inl (ValueError_store_not_found s)"
    using Some get_store_tier_not_store_error[of cfg i "length sts" s]
    by (auto simp: get_store_tier_info_def split: sum.splits option.splits)
  ultimately show ?thesis by simp
qed

lemma get_store_tier_info_known:
  "sid \<in> set sts \<Longrightarrow> get_store_tier_info TIER_CONFIG sid sts = Inr info \<Longrightarrow>
   store_id info = sid \<and> info_max_sku_limit info \<in> {1, 2, 3}"
  by (auto simp: get_store_tier_info_def get_store_tier_def TIER_CONFIG_def Let_def
      split: option.splits if_splits)

lemma cx_fallback:
  "get_sku_store_tier_info TIER_CONFIG (0::nat) (7::nat) [1, 2, 3] =
     \<lparr> store_id = 7, tier_name = TIER_3_LOW, tier_display = None,
       info_max_sku_limit = 1, tier_ratio = 1 / 2 \<rparr>"
  by (simp add: get_sku_store_tier_info_def get_store_tier_info_def)

lemma ex_lookup:
  "get_store_tier_info TIER_CONFIG (2::nat) [1, 2, 3] =
     Inr \<lparr> store_id = 2, tier_name = TIER_2_MEDIUM, tier_display = Some ''T2 (MED)'',
       info_max_sku_limit = 2, tier_ratio = 2 / 10 \<rparr>"
  by (simp add: get_store_tier_info_def get_store_tier_def TIER_CONFIG_def)

text \<open>
  Claim C9 as stated fails: for a store outside the ranked list the look-up of the
  integrated optimizer returns the lowest tier, with limit 1, and raises nothing.
\<close>

theorem tier_fallback_counterexample:
  "(7::nat) \<notin> set [1, 2, 3] \<and>
   get_sku_store_tier_info TIER_CONFIG (0::nat) (7::nat) [1, 2, 3] =
     \<lparr> store_id = 7, tier_name = TIER_3_LOW, tier_display = None,
       info_max_sku_limit = 1, tier_ratio = 1 / 2 \<rparr>"
  using cx_fallback by simp

text \<open>
  Claim C9, as the code has it. \<open>StoreTierSystem.get_store_tier_info\<close> raises the
  error that names the store exactly when the store is not in the list, and returns no
  tier then; \<open>_get_sku_store_tier_info\<close> turns that error into the lowest tier.
\<close>

theorem tier_lookup_unknown_store:
  "(get_store_tier_info cfg sid sts = Inl (ValueError_store_not_found s) \<longleftrightarrow>
      sid \<notin> set sts \<and> s = sid) \<and>
   (sid \<notin> set sts \<longrightarrow>
      get_sku_store_tier_info cfg sku sid sts =
        \<lparr> store_id = sid, tier_name = TIER_3_LOW, tier_display = None,
          info_max_sku_limit = 1, tier_ratio = 1 / 2 \<rparr>)"
proof -
  have "get_sku_store_tier_info cfg sku sid sts =
        \<lparr> store_id = sid, tier_name = TIER_3_LOW, tier_display = None,
          info_max_sku_limit = 1, tier_ratio = 1 / 2 \<rparr>" if "sid \<notin> set sts"
  proof -
    have "get_store_tier_info cfg sid sts = Inl (ValueError_store_not_found sid)"
      using that get_store_tier_info_unknown[of cfg sid sts sid] by simp
    then show ?thesis by (simp add: get_sku_store_tier_info_def)
  qed
  then show ?thesis using get_store_tier_info_unknown[of cfg sid sts s] by blast
qed

theorem tier_lookup_unknown_store_witness:
  "(7::nat) \<notin> set [1, 2, 3] \<and>
   get_store_tier_info TIER_CONFIG (7::nat) [1, 2, 3] = Inl (ValueError_store_not_found 7) \<and>
   get_sku_store_tier_info TIER_CONFIG (0::nat) (7::nat) [1, 2, 3] =
     \<lparr> store_id = 7, tier_name = TIER_3_LOW, tier_display = None,
       info_max_sku_limit = 1, tier_ratio = 1 / 2 \<rparr>"
proof -
  have n: "(7::nat) \<notin> set [1, 2, 3]" by simp
  from tier_lookup_unknown_store[of TIER_CONFIG "7::nat" "[1, 2, 3]" 7 "0::nat"] n
  show ?thesis by blast
qed

section \<open>The store-capacity constraint of Step 1\<close>

lemma store_limit_constraints_mem:
  "store_limit_constraints limits scarce ts sts = Inr cs \<Longrightarrow> j \<in> set sts \<Longrightarrow> j \<in> set ts \<Longrightarrow>
   \<exists>c. map_of limits j = Some c \<and>
       LpLe (map (\<lambda>i. (1, B_var i j)) scarce) [] (real_of_int c) \<in> set cs"
proof (induction sts arbitrary: cs)
  case Nil
  then show ?case by simp
next
  case (Cons j' sts)
  show ?case
  proof (cases "j' \<in> set ts")
    case False
    then have "store_limit_constraints limits scarce ts sts = Inr cs" and "j \<in> set sts"
      using Cons.prems by auto
    then show ?thesis using Cons.IH Cons.prems(3) by blast
  next
    case True
    then obtain c cs' where c: "map_of limits j' = Some c"
      and cs': "store_limit_constraints limits scarce ts sts = Inr cs'"
      and cs: "cs = LpLe (map (\<lambda>i. (1, B_var i j')) scarce) [] (real_of_int c) # cs'"
      using Cons.prems(1) by (auto split: option.splits sum.splits)
    show ?thesis
    proof (cases "j = j'")
      case True
      then show ?thesis using c cs by simp
    next
      case False
      then have "j \<in> set sts" using Cons.prems(2) by simp
      from Cons.IH[OF cs' this Cons.prems(3)] show ?thesis using cs by auto
    qed
  qed
qed

lemma dict_get_save_results:
  "dict_get (save_results scarce sts ts \<sigma>) (i, j) 0 =
     (if i \<in> set scarce \<and> j \<in> set sts \<and> j \<in> set ts then \<lfloor>\<sigma> (B_var i j)\<rfloor> else 0)"
proof -
  have eq: "(\<lambda>d (i, j). dict_set (i, j) (if j \<in> set ts then \<lfloor>\<sigma> (B_var i j)\<rfloor> else 0) d) =
        (\<lambda>d k. dict_set k (case k of (i, j) \<Rightarrow> if j \<in> set ts then \<lfloor>\<sigma> (B_var i j)\<rfloor> else 0) d)"
    by (auto simp: fun_eq_iff)
  show ?thesis
    unfolding save_results_def eq by (auto simp: dict_get_foldl_set dict_get_Nil)
qed

lemma coverage_problem_parts:
  fixes dat :: "('sku, 'store, 'color, 'size) data"
  assumes "coverage_problem dat scarce ts limits df = Inr P"
  shows "\<exists>lim. store_limit_constraints limits scarce ts (stores dat) = Inr lim \<and>
           set lim \<subseteq> set (constraints P) \<and>
           set (create_binary_variables scarce (stores dat) ts) \<subseteq> set (variables P)"
proof (cases "supply_constraints (A dat) (stores dat) ts scarce
                :: 'store py_error + ('sku, 'store, 'color, 'size) lp_var lp_constraint list")
  case (Inl e)
  then show ?thesis using assms by (simp add: coverage_problem_def)
next
  case sup: (Inr sc)
  show ?thesis
  proof (cases "store_limit_constraints limits scarce ts (stores dat)
                  :: 'store py_error + ('sku, 'store, 'color, 'size) lp_var lp_constraint list")
    case (Inl e)
    then show ?thesis using assms sup by (simp add: coverage_problem_def)
  next
    case (Inr lim)
    then have "P = \<lparr> variables =
                        create_binary_variables scarce (stores dat) ts
                        @ create_coverage_variables (stores dat) ts (K_s dat) (L_s dat)
                        @ concat (map (\<lambda>j. map (\<lambda>k. (Color_bin k j, LpBinary)) (K_s dat)
                                          @ map (\<lambda>l. (Size_bin l j, LpBinary)) (L_s dat))
                                   (filter (\<lambda>j. j \<in> set ts) (stores dat))),
                      objective =
                        map (\<lambda>j. (1, Color_coverage j)) (filter (\<lambda>j. j \<in> set ts) (stores dat))
                        @ map (\<lambda>j. (1, Size_coverage j)) (filter (\<lambda>j. j \<in> set ts) (stores dat)),
                      constraints =
                        sc @ lim
                        @ concat (map (coverage_constraints_store df
                                         (scarce_in_df df scarce) (K_s dat) (L_s dat))
                                      (filter (\<lambda>j. j \<in> set ts) (stores dat))) \<rparr>"
      using assms sup by (simp add: coverage_problem_def Let_def)
    then have "set lim \<subseteq> set (constraints P)"
      and "set (create_binary_variables scarce (stores dat) ts) \<subseteq> set (variables P)"
      by auto
    then show ?thesis using Inr by blast
  qed
qed

lemma cov_problem_built:
  "coverage_problem ex_data [0, 1] [0] ex_limits_one ex_df = Inr cov_problem"
  by (simp add: coverage_problem_def ex_data_def ex_df_def cov_problem_def ex_limits_one_def
        create_binary_variables_def create_coverage_variables_def df_row_def
        coverage_constraints_store_def covered_constraints_def scarce_in_df_def)

lemma cov_feasible: "lp_feasible cov_problem cov_sigma"
  by (simp add: lp_feasible_def cov_problem_def lp_value_def)

text \<open>
  Claim C1 as stated fails for \<open>ThreeStepOptimizer\<close>: with one store of limit 1 and
  two SKUs, the solver's optimal answer satisfies every constraint of the Step 1 model
  and marks both SKUs for the store.
\<close>

theorem step1_capacity_counterexample:
  "step1_problem ex_data [0] ex_df = Inr ex_problem \<and>
   lp_feasible ex_problem ex_sigma \<and>
   optimize_three_step ex_data [0] ex_limits_one ex_df ex_params ex_solver (\<lambda>k. 0) =
     Inr (ex_summary_marks, ex_state_marks) \<and>
   dict_get ex_limits_one 0 0 = 1 \<and>
   sum_list (map (\<lambda>i. ex_sigma (B_var i 0)) (SKUs ex_data)) = 2 \<and>
   length (filter (\<lambda>(k, v). snd k = 0 \<and> 0 < v) (step1_allocation ex_state_marks)) = 2"
  using ex_step1_problem ex_feasible ex_run_one
  by (simp add: ex_limits_one_def dict_get_def ex_data_def ex_state_marks_def)

text \<open>
  Claim C1, as the code has it. In the model of \<open>CoverageOptimizer\<close>, for every store
  of \<open>stores\<close> that is a target store, the marks of the scarce SKUs at the store sum
  to at most the store's limit, so a solution marks at most that many distinct scarce
  SKUs there.
\<close>

theorem coverage_store_capacity:
  fixes dat :: "('sku, 'store, 'color, 'size) data"
  assumes P: "coverage_problem dat scarce_skus ts limits df = Inr P"
    and feas: "lp_feasible P \<sigma>"
    and j: "j \<in> set (stores dat)" "j \<in> set ts"
  shows "\<exists>c. map_of limits j = Some c \<and>
             sum_list (map (\<lambda>i. \<sigma> (B_var i j)) scarce_skus) \<le> real_of_int c \<and>
             int (card {i \<in> set scarce_skus.
                    dict_get (save_results scarce_skus (stores dat) ts \<sigma>) (i, j) 0 = 1}) \<le> c"
proof -
  from coverage_problem_parts[OF P]
  obtain lim where lim: "store_limit_constraints limits scarce_skus ts (stores dat) = Inr lim"
    and sub: "set lim \<subseteq> set (constraints P)"
    and vars: "set (create_binary_variables scarce_skus (stores dat) ts) \<subseteq> set (variables P)"
    by blast
  from store_limit_constraints_mem[OF lim j]
  obtain c where c: "map_of limits j = Some c"
    and mem: "LpLe (map (\<lambda>i. (1, B_var i j)) scarce_skus) [] (real_of_int c) \<in> set lim"
    by blast
  have "LpLe (map (\<lambda>i. (1, B_var i j)) scarce_skus) [] (real_of_int c) \<in> set (constraints P)"
    using sub mem by blast
  then have "lp_holds \<sigma> (LpLe (map (\<lambda>i. (1, B_var i j)) scarce_skus) [] (real_of_int c))"
    using feas unfolding lp_feasible_def list_all_iff by blast
  then have le: "sum_list (map (\<lambda>i. \<sigma> (B_var i j)) scarce_skus) \<le> real_of_int c"
    by (simp add: lp_value_def comp_def)
  have bin: "\<sigma> (B_var i j) = 0 \<or> \<sigma> (B_var i j) = 1" if "i \<in> set scarce_skus" for i
  proof -
    have "(B_var i j, LpBinary) \<in> set (variables P)"
      using that vars j by (auto simp: create_binary_variables_def)
    then have "lp_in_cat LpBinary (\<sigma> (B_var i j))"
      using feas by (auto simp: lp_feasible_def list_all_iff)
    then show ?thesis by simp
  qed
  let ?M = "{i \<in> set scarce_skus.
              dict_get (save_results scarce_skus (stores dat) ts \<sigma>) (i, j) 0 = 1}"
  have fl: "\<lfloor>\<sigma> (B_var i j)\<rfloor> = 1 \<longleftrightarrow> \<sigma> (B_var i j) = 1" if "i \<in> set scarce_skus" for i
    using bin[OF that] by auto
  have M: "?M = {i \<in> set scarce_skus. \<sigma> (B_var i j) = 1}"
    using fl j by (auto simp: dict_get_save_results)
  have "real (card ?M) = (\<Sum>i\<in>{i \<in> set scarce_skus. \<sigma> (B_var i j) = 1}. 1)"
    unfolding M by simp
  also have "\<dots> = (\<Sum>i\<in>set scarce_skus. if \<sigma> (B_var i j) = 1 then 1 else 0)"
    by (rule sum.inter_filter) simp
  also have "\<dots> \<le> (\<Sum>i\<in>set scarce_skus. \<sigma> (B_var i j))"
  proof (rule sum_mono)
    fix i assume "i \<in> set scarce_skus"
    from bin[OF this] show "(if \<sigma> (B_var i j) = 1 then 1 else 0) \<le> \<sigma> (B_var i j)"
      by auto
  qed
  also have "\<dots> \<le> sum_list (map (\<lambda>i. \<sigma> (B_var i j)) scarce_skus)"
  proof (rule sum_set_le_sum_list)
    fix i assume "i \<in> set scarce_skus"
    from bin[OF this] show "0 \<le> \<sigma> (B_var i j)" by auto
  qed
  also note le
  finally have "real (card ?M) \<le> real_of_int c" .
  then have "int (card ?M) \<le> c" by linarith
  then show ?thesis using c le by blast
qed

theorem coverage_store_capacity_witness:
  "coverage_problem ex_data [0, 1] [0] ex_limits_one ex_df = Inr cov_problem \<and>
   lp_feasible cov_problem cov_sigma \<and>
   (0::nat) \<in> set (stores ex_data) \<and> (0::nat) \<in> set [0] \<and>
   (\<exists>c. map_of ex_limits_one 0 = Some c \<and>
        sum_list (map (\<lambda>i. cov_sigma (B_var i 0)) [0, 1]) \<le> real_of_int c \<and>
        int (card {i \<in> set [0, 1].
               dict_get (save_results [0, 1] (stores ex_data) [0] cov_sigma) (i, 0) 0 = 1}) \<le> c)"
proof -
  have s: "(0::nat) \<in> set (stores ex_data)" by (simp add: ex_data_def)
  have t: "(0::nat) \<in> set [0]" by simp
  from coverage_store_capacity[OF cov_problem_built cov_feasible s t]
  show ?thesis using cov_problem_built cov_feasible s t by blast
qed

end
